theory Spec2Isabelle
  imports Complex_Main "HOL-Library.Multiset"
begin

section \<open>Strings\<close>

text \<open>
  Python strings are modelled as \<open>string\<close>, one \<open>char\<close> per code point below 256.
  On that range the character classes and the case conversions below are Python's: white
  space is \<open>str.isspace\<close>, which \<open>\s\<close>, \<open>str.strip\<close> and \<open>str.split\<close> share; \<open>\d\<close> is
  the ten decimal digits; \<open>\w\<close> and \<open>str.lower\<close> cover the letters of the upper half; and
  \<open>str.upper\<close>, which leaves the range for three characters, gives code points.
\<close>

definition is_space :: "char \<Rightarrow> bool" where
  "is_space c \<longleftrightarrow> c \<in> set [CHR '' '', CHR 0x09, CHR 0x0A, CHR 0x0B, CHR 0x0C, CHR 0x0D,
                        CHR 0x1C, CHR 0x1D, CHR 0x1E, CHR 0x1F, CHR 0x85, CHR 0xA0]"

definition is_digit :: "char \<Rightarrow> bool" where
  "is_digit c \<longleftrightarrow> c \<in> set ''0123456789''"

definition uppers :: string where
  \<comment> \<open>the characters that \<open>str.lower()\<close> changes: A to Z, and 0xC0 to 0xDE without the
      multiplication sign 0xD7\<close>
  "uppers = ''ABCDEFGHIJKLMNOPQRSTUVWXYZ'' @
     [CHR 0xC0, CHR 0xC1, CHR 0xC2, CHR 0xC3, CHR 0xC4, CHR 0xC5, CHR 0xC6, CHR 0xC7, CHR
      0xC8, CHR 0xC9, CHR 0xCA, CHR 0xCB, CHR 0xCC, CHR 0xCD, CHR 0xCE, CHR 0xCF, CHR
      0xD0, CHR 0xD1, CHR 0xD2, CHR 0xD3, CHR 0xD4, CHR 0xD5, CHR 0xD6, CHR 0xD8, CHR
      0xD9, CHR 0xDA, CHR 0xDB, CHR 0xDC, CHR 0xDD, CHR 0xDE]"

definition lowers :: string where
  \<comment> \<open>their lower-case letters, in the same order: a to z, and 0xE0 to 0xFE without the
      division sign 0xF7\<close>
  "lowers = ''abcdefghijklmnopqrstuvwxyz'' @
     [CHR 0xE0, CHR 0xE1, CHR 0xE2, CHR 0xE3, CHR 0xE4, CHR 0xE5, CHR 0xE6, CHR 0xE7, CHR
      0xE8, CHR 0xE9, CHR 0xEA, CHR 0xEB, CHR 0xEC, CHR 0xED, CHR 0xEE, CHR 0xEF, CHR
      0xF0, CHR 0xF1, CHR 0xF2, CHR 0xF3, CHR 0xF4, CHR 0xF5, CHR 0xF6, CHR 0xF8, CHR
      0xF9, CHR 0xFA, CHR 0xFB, CHR 0xFC, CHR 0xFD, CHR 0xFE]"

definition is_word :: "char \<Rightarrow> bool" where
  \<comment> \<open>the class \<open>\w\<close> of a \<open>str\<close> pattern: letters, digits and the underscore, with the
      letters and numeric characters of the upper half\<close>
  "is_word c \<longleftrightarrow> c \<in> set lowers \<or> c \<in> set uppers \<or> is_digit c \<or> c = CHR ''_''
     \<or> c \<in> set [CHR 0xAA, CHR 0xB2, CHR 0xB3, CHR 0xB5, CHR 0xB9, CHR 0xBA, CHR 0xBC, CHR 0xBD, CHR
               0xBE, CHR 0xDF, CHR 0xFF]"

definition lower_char :: "char \<Rightarrow> char" where
  "lower_char c = (case map_of (zip uppers lowers) c of Some d \<Rightarrow> d | None \<Rightarrow> c)"

definition lower :: "string \<Rightarrow> string" where
  \<comment> \<open>\<open>str.lower()\<close>\<close>
  "lower s = map lower_char s"

definition code :: "char \<Rightarrow> nat" where
  \<comment> \<open>\<open>ord(c)\<close>\<close>
  "code c = of_char c"

definition upper_points :: "char \<Rightarrow> nat list" where
  \<comment> \<open>\<open>c.upper()\<close> as code points: the micro sign and \<open>y\<close> with diaeresis go to letters
      above 255, the sharp s to \<open>SS\<close>\<close>
  "upper_points c =
     (if c = CHR 0xB5 then [924] else if c = CHR 0xDF then [83, 83] else if c = CHR 0xFF then [376]
      else (case map_of (zip lowers uppers) c of Some d \<Rightarrow> [code d] | None \<Rightarrow> [code c]))"

definition upper :: "string \<Rightarrow> nat list" where
  \<comment> \<open>\<open>str.upper()\<close>, as the list of the code points of the result\<close>
  "upper s = concat (map upper_points s)"

fun starts_with :: "'a list \<Rightarrow> 'a list \<Rightarrow> bool" where
  "starts_with [] ys = True"
| "starts_with (x # xs) [] = False"
| "starts_with (x # xs) (y # ys) = (if x = y then starts_with xs ys else False)"

fun str_in :: "'a list \<Rightarrow> 'a list \<Rightarrow> bool" where
  \<comment> \<open>\<open>xs in ys\<close> on strings: \<open>xs\<close> occurs in \<open>ys\<close> as a contiguous substring\<close>
  "str_in xs [] = (xs = [])"
| "str_in xs (y # ys) = (starts_with xs (y # ys) \<or> str_in xs ys)"

definition strip :: "string \<Rightarrow> string" where
  \<comment> \<open>\<open>str.strip()\<close>\<close>
  "strip s = rev (dropWhile is_space (rev (dropWhile is_space s)))"

definition slice :: "string \<Rightarrow> nat \<Rightarrow> nat \<Rightarrow> string" where
  \<comment> \<open>\<open>s[i:j]\<close> for \<open>0 \<le> i\<close>, \<open>0 \<le> j\<close>\<close>
  "slice s i j = take (j - i) (drop i s)"

function split_ws :: "string \<Rightarrow> string list" where
  \<comment> \<open>\<open>str.split()\<close>: the maximal runs of characters that are not white space\<close>
  "split_ws s =
     (let s' = dropWhile is_space s
      in if s' = [] then []
         else takeWhile (\<lambda>c. \<not> is_space c) s' # split_ws (dropWhile (\<lambda>c. \<not> is_space c) s'))"
  by pat_completeness auto
termination
proof (relation "measure length")
  show "wf (measure length)" by simp
next
  fix s x :: string
  assume x: "x = dropWhile is_space s" and ne: "x \<noteq> []"
  from ne obtain c cs where xc: "x = c # cs" by (cases x) simp_all
  from x ne have "\<not> is_space (hd x)" by (simp add: hd_dropWhile)
  then have "\<not> is_space c" by (simp add: xc)
  then have "dropWhile (\<lambda>c. \<not> is_space c) x = dropWhile (\<lambda>c. \<not> is_space c) cs"
    by (simp add: xc)
  then have "length (dropWhile (\<lambda>c. \<not> is_space c) x) \<le> length cs"
    by (simp add: length_dropWhile_le)
  also have "length cs < length x" by (simp add: xc)
  also have "length x \<le> length s" by (simp add: x length_dropWhile_le)
  finally show "(dropWhile (\<lambda>c. \<not> is_space c) x, s) \<in> measure length" by simp
qed

declare split_ws.simps [simp del]

fun join_sp :: "string list \<Rightarrow> string" where
  \<comment> \<open>\<open>' '.join(ws)\<close>\<close>
  "join_sp [] = []"
| "join_sp [w] = w"
| "join_sp (w # v # ws) = w @ CHR '' '' # join_sp (v # ws)"

definition plain :: "string \<Rightarrow> bool" where
  \<comment> \<open>a token: a non-empty string without white space\<close>
  "plain w \<longleftrightarrow> w \<noteq> [] \<and> (\<forall>c\<in>set w. \<not> is_space c)"

section \<open>Document Segmenter: \<open>clean_and_chunk\<close>\<close>

function strip_tags :: "string \<Rightarrow> string" where
  \<comment> \<open>\<open>re.sub(r'<[^>]+>', '', content)\<close>: at a \<open><\<close>, the greedy class \<open>[^>]+\<close> takes
      every character up to the next \<open>>\<close>; the match succeeds when that run is not
      empty and a \<open>>\<close> follows, and the scan goes on after it.\<close>
  "strip_tags [] = []"
| "strip_tags (c # cs) =
     (if c = CHR ''<'' \<and> takeWhile (\<lambda>x. x \<noteq> CHR ''>'') cs \<noteq> [] \<and> dropWhile (\<lambda>x. x \<noteq> CHR ''>'') cs \<noteq> []
      then strip_tags (tl (dropWhile (\<lambda>x. x \<noteq> CHR ''>'') cs))
      else c # strip_tags cs)"
  by pat_completeness auto
termination
proof (relation "measure length")
  show "wf (measure length)" by simp
next
  fix c :: char and cs :: string
  have "length (tl (dropWhile (\<lambda>x. x \<noteq> CHR ''>'') cs)) \<le> length cs"
    using length_dropWhile_le [of "\<lambda>x. x \<noteq> CHR ''>''" cs] by simp
  then show "(tl (dropWhile (\<lambda>x. x \<noteq> CHR ''>'') cs), c # cs) \<in> measure length" by simp
next
  fix c :: char and cs :: string
  show "(cs, c # cs) \<in> measure length" by simp
qed

function collapse_ws :: "string \<Rightarrow> string" where
  \<comment> \<open>\<open>re.sub(r'\s+', ' ', content)\<close>: every maximal run of white space becomes one space\<close>
  "collapse_ws [] = []"
| "collapse_ws (c # cs) =
     (if is_space c then CHR '' '' # collapse_ws (dropWhile is_space cs)
      else c # collapse_ws cs)"
  by pat_completeness auto
termination
proof (relation "measure length")
  show "wf (measure length)" by simp
next
  fix c :: char and cs :: string
  show "(dropWhile is_space cs, c # cs) \<in> measure length"
    using length_dropWhile_le [of is_space cs] by simp
next
  fix c :: char and cs :: string
  show "(cs, c # cs) \<in> measure length" by simp
qed

definition tokens :: "string \<Rightarrow> string list" where
  \<comment> \<open>the list \<open>words\<close> of \<open>clean_and_chunk\<close>\<close>
  "tokens content = split_ws (strip (collapse_ws (strip_tags content)))"

fun pack :: "int \<Rightarrow> string list \<Rightarrow> string list \<Rightarrow> string list \<Rightarrow> int \<Rightarrow> string list" where
  \<comment> \<open>the loop \<open>for word in words\<close> with its state \<open>chunks, current_chunk, current_size\<close>,
      and the flush after it\<close>
  "pack max_size [] chunks current_chunk current_size =
     (if current_chunk \<noteq> [] then chunks @ [join_sp current_chunk] else chunks)"
| "pack max_size (word # words) chunks current_chunk current_size =
     (let word_len = int (length word) + 1
      in if current_size + word_len > max_size \<and> current_chunk \<noteq> []
         then pack max_size words (chunks @ [join_sp current_chunk]) [word] (int (length word))
         else pack max_size words chunks (current_chunk @ [word]) (current_size + word_len))"

definition clean_and_chunk :: "string \<Rightarrow> int \<Rightarrow> string list" where
  "clean_and_chunk content max_size = pack max_size (tokens content) [] [] 0"

section \<open>Regular expressions\<close>

text \<open>
  The patterns of the program are sequences of single-character classes, greedy
  repetitions of a class, optional characters, word boundaries and group marks, under a
  top-level alternation. \<open>match_seq\<close> is the backtracking matcher of \<open>re\<close> on this
  fragment: a repetition first takes the character and gives it back when the rest of the
  pattern fails. A result \<open>(n, ms)\<close> is the length of the match and the offsets of the
  marks passed, which delimit the groups. An alternation inside a sequence is written out
  as the list of its sequences, tried in order, which is the order in which \<open>re\<close>
  backtracks through them.
\<close>

datatype tok = One "char \<Rightarrow> bool" | Star "char \<Rightarrow> bool" | Opt "char \<Rightarrow> bool" | Bnd | Mark

type_synonym regex = "tok list list"

definition lit :: "string \<Rightarrow> tok list" where
  "lit s = map (\<lambda>c. One (\<lambda>x. x = c)) s"

definition lit_i :: "string \<Rightarrow> tok list" where
  \<comment> \<open>a literal under \<open>re.IGNORECASE\<close>\<close>
  "lit_i s = map (\<lambda>c. One (\<lambda>x. lower_char x = lower_char c)) s"

definition at_boundary :: "char option \<Rightarrow> string \<Rightarrow> bool" where
  \<comment> \<open>\<open>\b\<close>: exactly one of the characters before and after the position is a word character\<close>
  "at_boundary prev s \<longleftrightarrow>
     (case prev of None \<Rightarrow> False | Some c \<Rightarrow> is_word c) \<noteq> (case s of [] \<Rightarrow> False | c # _ \<Rightarrow> is_word c)"

definition shift :: "nat \<times> nat list \<Rightarrow> nat \<times> nat list" where
  "shift r = (Suc (fst r), map Suc (snd r))"

fun match_seq :: "tok list \<Rightarrow> char option \<Rightarrow> string \<Rightarrow> (nat \<times> nat list) option" where
  "match_seq [] prev s = Some (0, [])"
| "match_seq (One p # r) prev [] = None"
| "match_seq (One p # r) prev (c # cs) =
     (if p c then map_option shift (match_seq r (Some c) cs) else None)"
| "match_seq (Star p # r) prev [] = match_seq r prev []"
| "match_seq (Star p # r) prev (c # cs) =
     (if p c
      then (case match_seq (Star p # r) (Some c) cs of
              Some x \<Rightarrow> Some (shift x)
            | None \<Rightarrow> match_seq r prev (c # cs))
      else match_seq r prev (c # cs))"
| "match_seq (Opt p # r) prev [] = match_seq r prev []"
| "match_seq (Opt p # r) prev (c # cs) =
     (if p c
      then (case match_seq r (Some c) cs of
              Some x \<Rightarrow> Some (shift x)
            | None \<Rightarrow> match_seq r prev (c # cs))
      else match_seq r prev (c # cs))"
| "match_seq (Bnd # r) prev s = (if at_boundary prev s then match_seq r prev s else None)"
| "match_seq (Mark # r) prev s =
     map_option (\<lambda>x. (fst x, 0 # snd x)) (match_seq r prev s)"

fun match_alts :: "regex \<Rightarrow> char option \<Rightarrow> string \<Rightarrow> (nat \<times> nat list) option" where
  "match_alts [] prev s = None"
| "match_alts (a # as) prev s =
     (case match_seq a prev s of Some x \<Rightarrow> Some x | None \<Rightarrow> match_alts as prev s)"

fun search_from :: "regex \<Rightarrow> char option \<Rightarrow> nat \<Rightarrow> string \<Rightarrow> (nat \<times> nat) option" where
  "search_from rx prev i [] =
     (case match_alts rx prev [] of Some x \<Rightarrow> Some (i, i + fst x) | None \<Rightarrow> None)"
| "search_from rx prev i (c # cs) =
     (case match_alts rx prev (c # cs) of
        Some x \<Rightarrow> Some (i, i + fst x)
      | None \<Rightarrow> search_from rx (Some c) (Suc i) cs)"

definition re_search :: "regex \<Rightarrow> string \<Rightarrow> (nat \<times> nat) option" where
  \<comment> \<open>\<open>re.search\<close>, also the first item of \<open>re.finditer\<close>: the leftmost match, as
      \<open>(m.start(), m.end())\<close>\<close>
  "re_search rx s = search_from rx None 0 s"

fun groups :: "string \<Rightarrow> nat list \<Rightarrow> string list" where
  "groups s (a # b # ms) = slice s a b # groups s ms"
| "groups s ms = []"

fun findall_from :: "regex \<Rightarrow> char option \<Rightarrow> nat \<Rightarrow> string \<Rightarrow> string list list" where
  \<comment> \<open>the scan of \<open>re.findall\<close>: \<open>skip\<close> counts the characters of the last match still to
      pass; every match contributes the list of its groups\<close>
  "findall_from rx prev skip [] =
     (if skip = 0
      then (case match_alts rx prev [] of Some x \<Rightarrow> [groups [] (snd x)] | None \<Rightarrow> [])
      else [])"
| "findall_from rx prev skip (c # cs) =
     (if skip > 0 then findall_from rx (Some c) (skip - 1) cs
      else (case match_alts rx prev (c # cs) of
              Some x \<Rightarrow> groups (c # cs) (snd x) # findall_from rx (Some c) (fst x - 1) cs
            | None \<Rightarrow> findall_from rx (Some c) 0 cs))"

definition re_findall :: "regex \<Rightarrow> string \<Rightarrow> string list list" where
  "re_findall rx s = findall_from rx None 0 s"

section \<open>Configuration and Concept Taxonomy\<close>

definition COMPANIES :: "(string \<times> string) list" where
  \<comment> \<open>\<open>config.COMPANIES\<close>, in the order of the dictionary\<close>
  "COMPANIES =
     [(''AAPL'', ''320193''), (''MSFT'', ''789019''), (''NVDA'', ''1045810''),
      (''JPM'', ''19617''), (''TSLA'', ''1318605''), (''JNJ'', ''200406''),
      (''PFE'', ''78003''), (''WMT'', ''104169''), (''AMZN'', ''1018724''),
      (''XOM'', ''34088''), (''CAT'', ''18230'')]"

record details =
  keywords_t :: "string list"
  sec_sections :: "string list"
  filing_types_t :: "string list"
  xbrl_tags :: "string list"

definition taxonomy :: "(string \<times> details) list" where
  "taxonomy =
   [(''revenue_performance'',
      \<lparr>keywords_t = [''revenue'', ''sales'', ''income'', ''earnings'', ''profit'', ''performance'',
                   ''top line'', ''net sales'', ''total revenue'', ''operating revenue'', ''growth'',
                   ''decline''],
       sec_sections = [''Item 1 - Business'', ''Item 7 - Management's Discussion'',
                       ''Item 8 - Financial Statements'', ''Consolidated Statements of Operations''],
       filing_types_t = [''10-K'', ''10-Q'', ''8-K''],
       xbrl_tags = [''Revenues'', ''SalesRevenueNet'']\<rparr>),
    (''risk_factors'',
      \<lparr>keywords_t = [''risk'', ''risks'', ''risk factors'', ''uncertainties'', ''challenges'', ''threats'',
                   ''vulnerabilities'', ''material adverse'', ''cyber'', ''cybersecurity'',
                   ''regulatory risk'', ''market risk''],
       sec_sections = [''Item 1A - Risk Factors'',
                       ''Item 7A - Quantitative and Qualitative Disclosures About Market Risk''],
       filing_types_t = [''10-K'', ''10-Q'', ''8-K''],
       xbrl_tags = [''RiskFactors'', ''MarketRiskDisclosures'']\<rparr>),
    (''research_development'',
      \<lparr>keywords_t = [''research and development'', ''r&d'', ''innovation'', ''technology'', ''patents'',
                   ''intellectual property'', ''development costs'', ''research expenses'',
                   ''innovation investment''],
       sec_sections = [''Item 1 - Business'', ''Item 7 - Management's Discussion'',
                       ''Item 8 - Financial Statements''],
       filing_types_t = [''10-K'', ''10-Q''],
       xbrl_tags = [''ResearchAndDevelopmentExpense'']\<rparr>),
    (''working_capital'',
      \<lparr>keywords_t = [''working capital'', ''current assets'', ''current liabilities'',
                   ''accounts receivable'', ''inventory'', ''accounts payable'', ''cash conversion'',
                   ''liquidity''],
       sec_sections = [''Item 7 - Management's Discussion'', ''Item 8 - Financial Statements'',
                       ''Consolidated Balance Sheets''],
       filing_types_t = [''10-K'', ''10-Q''],
       xbrl_tags = [''WorkingCapital'', ''AssetsCurrent'', ''LiabilitiesCurrent'']\<rparr>),
    (''executive_compensation'',
      \<lparr>keywords_t = [''executive compensation'', ''ceo pay'', ''executive pay'',
                   ''compensation committee'', ''salary'', ''bonus'', ''stock options'',
                   ''equity compensation''],
       sec_sections = [''Compensation Discussion and Analysis'', ''Executive Compensation Tables''],
       filing_types_t = [''DEF 14A''],
       xbrl_tags = [''CompensationCosts'', ''ShareBasedCompensation'']\<rparr>),
    (''insider_trading'',
      \<lparr>keywords_t = [''insider trading'', ''insider transactions'', ''form 3'', ''form 4'', ''form 5'',
                   ''beneficial ownership'', ''director transactions'', ''stock purchases'',
                   ''stock sales''],
       sec_sections = [''Security Ownership of Certain Beneficial Owners''],
       filing_types_t = [''3'', ''4'', ''5'', ''DEF 14A''],
       xbrl_tags = [''SecurityOwned'', ''TransactionShares'']\<rparr>),
    (''climate_esg'',
      \<lparr>keywords_t = [''climate'', ''climate change'', ''environmental'', ''sustainability'', ''esg'',
                   ''carbon'', ''emissions'', ''renewable energy'', ''climate risk''],
       sec_sections = [''Item 1A - Risk Factors'', ''Item 1 - Business'',
                       ''Item 7 - Management's Discussion''],
       filing_types_t = [''10-K'', ''10-Q'', ''8-K''],
       xbrl_tags = [''EnvironmentalCompliance'']\<rparr>),
    (''mergers_acquisitions'',
      \<lparr>keywords_t = [''merger'', ''acquisition'', ''m&a'', ''business combination'', ''purchase'',
                   ''divestiture'', ''joint venture'', ''strategic alliance''],
       sec_sections = [''Item 2 - Management's Discussion of Financial Condition'',
                       ''Item 8 - Financial Statements'', ''Business Combinations''],
       filing_types_t = [''8-K'', ''10-K'', ''10-Q''],
       xbrl_tags = [''BusinessCombinations'', ''Goodwill'']\<rparr>),
    (''competitive_advantage'',
      \<lparr>keywords_t = [''competitive advantage'', ''moat'', ''differentiation'', ''market position'',
                   ''barriers to entry'', ''competitive strengths'', ''market leadership'',
                   ''brand strength''],
       sec_sections = [''Item 1 - Business'', ''Item 1A - Risk Factors'',
                       ''Item 7 - Management's Discussion''],
       filing_types_t = [''10-K''],
       xbrl_tags = [''BusinessDescription'']\<rparr>),
    (''ai_automation'',
      \<lparr>keywords_t = [''artificial intelligence'', ''ai'', ''machine learning'', ''automation'',
                   ''robotics'', ''digital transformation'', ''technology adoption'', ''algorithmic''],
       sec_sections = [''Item 1 - Business'', ''Item 1A - Risk Factors'',
                       ''Item 7 - Management's Discussion''],
       filing_types_t = [''10-K'', ''10-Q'', ''8-K''],
       xbrl_tags = [''TechnologyInvestments'']\<rparr>)]"

section \<open>Query Interpreter\<close>

definition year_patterns :: regex where
  \<comment> \<open>\<open>\b(19|20)\d{2}\b\<close>: the only group holds the first two digits\<close>
  "year_patterns =
     map (\<lambda>g. [Bnd, Mark] @ lit g @ [Mark, One is_digit, One is_digit, Bnd]) [''19'', ''20'']"

definition quarter_patterns :: regex where
  \<comment> \<open>\<open>\b(Q[1-4]|first|second|third|fourth)\s+(quarter|Q)\b\<close>\<close>
  "quarter_patterns =
     concat (map (\<lambda>g1. map (\<lambda>g2. [Bnd, Mark] @ g1 @ [Mark, One is_space, Star is_space, Mark] @ g2 @ [Mark, Bnd])
                              [lit ''quarter'', lit ''Q''])
                 [lit ''Q'' @ [One (\<lambda>c. c \<in> set ''1234'')], lit ''first'', lit ''second'',
                  lit ''third'', lit ''fourth''])"

definition period_patterns :: "(string \<times> regex) list" where
  "period_patterns =
     [(''annual'', map (\<lambda>a. [Bnd] @ a @ [Bnd])
         [lit ''annual'', lit ''yearly'', lit ''year-over-year'', lit ''YoY'']),
      (''quarterly'', map (\<lambda>a. [Bnd] @ a @ [Bnd])
         [lit ''quarterly'', lit ''quarter'', lit ''QoQ'']),
      (''recent'', map (\<lambda>a. [Bnd] @ a @ [Bnd])
         [lit ''recent'', lit ''latest'', lit ''current'', lit ''last'', lit ''past'']),
      (''historical'', map (\<lambda>a. [Bnd] @ a @ [Bnd])
         [lit ''historical'', lit ''over'' @ [One is_space, Star is_space] @ lit ''time'',
          lit ''trend'', lit ''evolution''])]"

record temporal =
  years :: "nat list"
  quarters :: "(string \<times> string) list"
  period_type :: "string option"

record strategy =
  search_type :: string
  filters :: "(string \<times> nat list) list"
  ranking_factors :: "string list"

record query_info =
  original_query :: string
  tickers :: "string list"
  temporal_info :: temporal
  financial_concepts_q :: "string list"
  relevant_sections :: "string list"
  filing_types :: "string list"
  search_strategy :: strategy

definition extract_tickers :: "string \<Rightarrow> string list" where
  \<comment> \<open>\<open>_extract_tickers\<close>; \<open>list(set(tickers))\<close> is the list without its duplicates, in the
      order of first occurrence (Python leaves the order open)\<close>
  "extract_tickers query =
     (let query_upper = upper query
      in remdups
           ([ticker \<leftarrow> map fst COMPANIES. str_in (map code ticker) query_upper] @
            [ticker. (ticker, company_name) \<leftarrow> COMPANIES, str_in (lower company_name) (lower query)]))"

definition int_of_digits :: "string \<Rightarrow> nat" where
  \<comment> \<open>\<open>int(year)\<close> on a string of decimal digits, which is all the pattern lets through\<close>
  "int_of_digits s =
     foldl (\<lambda>n c. 10 * n + (case map_of (zip ''0123456789'' [0 ..< 10]) c of Some d \<Rightarrow> d | None \<Rightarrow> 0)) 0 s"

fun first_period :: "(string \<times> regex) list \<Rightarrow> string \<Rightarrow> string option" where
  \<comment> \<open>the loop over \<open>period_patterns\<close> with its \<open>break\<close>\<close>
  "first_period [] q = None"
| "first_period ((ptype, pattern) # ps) q =
     (if re_search pattern q \<noteq> None then Some ptype else first_period ps q)"

definition extract_temporal_info :: "string \<Rightarrow> temporal" where
  "extract_temporal_info query =
     \<lparr>years = map (\<lambda>g. int_of_digits (hd g)) (re_findall year_patterns query),
      quarters = map (\<lambda>g. (hd g, hd (tl g))) (re_findall quarter_patterns (lower query)),
      period_type = first_period period_patterns (lower query)\<rparr>"

definition map_financial_concepts :: "string \<Rightarrow> string list" where
  "map_financial_concepts query_lower =
     [concept. (concept, d) \<leftarrow> taxonomy, list_ex (\<lambda>keyword. str_in (lower keyword) query_lower) (keywords_t d)]"

definition get_relevant_sections :: "string list \<Rightarrow> string list" where
  \<comment> \<open>the set is listed without duplicates, in the order of first occurrence\<close>
  "get_relevant_sections financial_concepts =
     remdups (concat (map (\<lambda>concept. case map_of taxonomy concept of
                                        Some d \<Rightarrow> sec_sections d | None \<Rightarrow> [])
                          financial_concepts))"

definition get_filing_types :: "string list \<Rightarrow> temporal \<Rightarrow> string list" where
  "get_filing_types financial_concepts ti =
     remdups (concat (map (\<lambda>concept. case map_of taxonomy concept of
                                        Some d \<Rightarrow> filing_types_t d | None \<Rightarrow> [])
                          financial_concepts) @
              (if period_type ti = Some ''annual'' then [''10-K'']
               else if period_type ti = Some ''quarterly'' then [''10-Q''] else []))"

definition determine_search_strategy :: "string list \<Rightarrow> temporal \<Rightarrow> strategy" where
  "determine_search_strategy financial_concepts ti =
     (let strategy = \<lparr>search_type = ''semantic'', filters = [],
                      ranking_factors = [''semantic_similarity'', ''section_relevance'',
                                         ''temporal_relevance'']\<rparr>;
          strategy =
            (if length financial_concepts = 1 \<and>
                hd financial_concepts \<in> set [''revenue_performance'', ''risk_factors'']
             then strategy\<lparr>search_type := ''semantic''\<rparr>
             else if years ti \<noteq> [] \<or> quarters ti \<noteq> []
             then strategy\<lparr>search_type := ''hybrid''\<rparr>
             else strategy)
      in if years ti \<noteq> [] then strategy\<lparr>filters := [(''years'', years ti)]\<rparr> else strategy)"

definition parse_query :: "string \<Rightarrow> query_info" where
  "parse_query query =
     (let query_lower = lower query
      in \<lparr>original_query = query,
          tickers = extract_tickers query,
          temporal_info = extract_temporal_info query,
          financial_concepts_q = map_financial_concepts query_lower,
          relevant_sections = get_relevant_sections (map_financial_concepts query_lower),
          filing_types = get_filing_types (map_financial_concepts query_lower)
                           (extract_temporal_info query),
          search_strategy = determine_search_strategy (map_financial_concepts query_lower)
                              (extract_temporal_info query)\<rparr>)"

section \<open>Document Segmenter: sections, tags and chunk records\<close>

definition sp_star :: tok where
  \<comment> \<open>\<open>\s*\<close>\<close>
  "sp_star = Star is_space"

definition dot_sp_star :: tok where
  \<comment> \<open>\<open>[\.\s]*\<close>\<close>
  "dot_sp_star = Star (\<lambda>c. c = CHR ''.'' \<or> is_space c)"

definition section_patterns :: "(string \<times> regex) list" where
  \<comment> \<open>\<open>self.section_patterns\<close> in the order of the dictionary; the six pattern strings
      are pairwise different, so that \<open>other_pattern != pattern\<close> holds exactly between
      two different entries\<close>
  "section_patterns =
     [(''Risk Factors'',
         [lit_i ''item'' @ [sp_star] @ lit_i ''1a'' @ [dot_sp_star] @ lit_i ''risk'' @ [sp_star] @
          lit_i ''factors'']),
      (''Business'',
         [lit_i ''item'' @ [sp_star] @ lit_i ''1'' @ [dot_sp_star] @ lit_i ''business'']),
      (''MD&A'',
         [lit_i ''item'' @ [sp_star] @ lit_i ''7'' @ [dot_sp_star] @ lit_i ''management'' @
          [Opt (\<lambda>c. c = CHR 0x27)] @ lit_i ''s'' @ [sp_star] @ lit_i ''discussion'']),
      (''Financial Statements'',
         [lit_i ''item'' @ [sp_star] @ lit_i ''8'' @ [dot_sp_star] @ lit_i ''financial'' @ [sp_star] @
          lit_i ''statements'']),
      (''Compensation'',
         [lit_i ''compensation'' @ [sp_star] @ lit_i ''discussion'']),
      (''Executive Compensation'',
         [lit_i ''executive'' @ [sp_star] @ lit_i ''compensation''])]"

fun section_end :: "string \<Rightarrow> nat \<Rightarrow> string \<Rightarrow> (string \<times> regex) list \<Rightarrow> nat \<Rightarrow> nat" where
  \<comment> \<open>the inner loop \<open>for other_pattern in self.section_patterns.values()\<close>, with the
      running value of \<open>end\<close>\<close>
  "section_end content start section_name [] end = end"
| "section_end content start section_name ((other_name, other_pattern) # ps) end =
     section_end content start section_name ps
       (if other_name \<noteq> section_name
        then (case re_search other_pattern (drop start content) of
                Some m \<Rightarrow> (let potential_end = start + fst m
                           in if start < potential_end \<and> potential_end < end
                              then potential_end else end)
              | None \<Rightarrow> end)
        else end)"

fun sections_loop :: "string \<Rightarrow> (string \<times> regex) list \<Rightarrow> (string \<times> string) list" where
  \<comment> \<open>the outer loop; the dictionary \<open>sections\<close> is the list of its items in insertion
      order (every name is visited once)\<close>
  "sections_loop content [] = []"
| "sections_loop content ((section_name, pattern) # ps) =
     (case re_search pattern content of
        Some m \<Rightarrow>
          (let start = snd m;
               end = section_end content start section_name section_patterns (length content);
               section_content = strip (slice content start end)
           in if length section_content > 200
              then (section_name, section_content) # sections_loop content ps
              else sections_loop content ps)
      | None \<Rightarrow> sections_loop content ps)"

definition extract_sections :: "string \<Rightarrow> string \<Rightarrow> (string \<times> string) list" where
  "extract_sections content filing_type =
     (let sections = sections_loop content section_patterns
      in if sections = [] \<and> length content > 200 then [(''General Content'', content)]
         else sections)"

definition tag_concepts :: "string \<Rightarrow> string list" where
  "tag_concepts content =
     (let content_lower = lower content
      in [concept. (concept, d) \<leftarrow> taxonomy,
                   list_ex (\<lambda>keyword. str_in (lower keyword) content_lower) (keywords_t d)])"

record chunk =
  content :: string
  ticker :: string
  filing_type :: string
  section_of :: string
  estimated_year :: "nat option"
  chunk_id :: string
  financial_concepts :: "string list"
  word_count :: nat

function str_nat :: "nat \<Rightarrow> string" where
  \<comment> \<open>the decimal numeral of a number, as an f-string prints it\<close>
  "str_nat n = (if n < 10 then [''0123456789'' ! n] else str_nat (n div 10) @ [''0123456789'' ! (n mod 10)])"
  by pat_completeness auto
termination
  by (relation "measure id") auto

declare str_nat.simps [simp del]

definition str_year :: "nat option \<Rightarrow> string" where
  "str_year y = (case y of None \<Rightarrow> ''None'' | Some n \<Rightarrow> str_nat n)"

definition suffix_of :: "string \<Rightarrow> string" where
  \<comment> \<open>\<open>Path.suffix\<close>: the name from its last dot on, when that dot is neither the first
      nor the last character\<close>
  "suffix_of name =
     (let ext = rev (takeWhile (\<lambda>c. c \<noteq> CHR ''.'') (rev name))
      in if CHR ''.'' \<in> set name \<and> ext \<noteq> [] \<and> length ext + 1 < length name
         then CHR ''.'' # ext else [])"

definition year_in_name :: regex where
  \<comment> \<open>\<open>(\d{4})\<close>\<close>
  "year_in_name = [[Mark, One is_digit, One is_digit, One is_digit, One is_digit, Mark]]"

fun make_chunks :: "string \<Rightarrow> string \<Rightarrow> nat option \<Rightarrow> nat \<Rightarrow> (string \<times> string) list \<Rightarrow> chunk list" where
  \<comment> \<open>the body of the two nested loops of \<open>process_file\<close>, over the pairs of a section
      name and one chunk text of that section, with the running \<open>chunk_counter\<close>\<close>
  "make_chunks tk ft year chunk_counter [] = []"
| "make_chunks tk ft year chunk_counter ((section_name, chunk_content) # rest) =
     \<lparr>content = chunk_content, ticker = tk, filing_type = ft, section_of = section_name,
      estimated_year = year,
      chunk_id = tk @ ''_'' @ ft @ ''_'' @ str_year year @ ''_'' @ str_nat chunk_counter,
      financial_concepts = tag_concepts chunk_content,
      word_count = length (split_ws chunk_content)\<rparr>
     # make_chunks tk ft year (chunk_counter + 1) rest"

definition process_file :: "(string \<Rightarrow> string) \<Rightarrow> string \<times> string option \<Rightarrow> string \<Rightarrow> string \<Rightarrow> chunk list" where
  \<comment> \<open>a file is its name and its text, \<open>None\<close> when reading it raises; \<open>get_text\<close> stands
      for \<open>BeautifulSoup(content, 'html.parser').get_text()\<close>\<close>
  "process_file get_text file tk ft =
     (case snd file of
        None \<Rightarrow> []
      | Some raw \<Rightarrow>
          (let content = (if lower (suffix_of (fst file)) \<in> set [''.html'', ''.htm'']
                          then get_text raw else raw)
           in if length content < 200 then []
              else (let sections = extract_sections content ft;
                        estimated_year = (case re_findall year_in_name (fst file) of
                                            [] \<Rightarrow> None | g # _ \<Rightarrow> Some (int_of_digits (hd g)))
                    in make_chunks tk ft estimated_year 0
                         (concat (map (\<lambda>(section_name, section_content).
                                         map (\<lambda>c. (section_name, c)) (clean_and_chunk section_content 1000))
                                      sections)))))"

datatype entry = Plain string | Directory string "(string \<times> string option) list"

definition ends_with :: "string \<Rightarrow> string \<Rightarrow> bool" where
  "ends_with suf name = starts_with (rev suf) (rev name)"

fun process_dirs :: "(string \<Rightarrow> string) \<Rightarrow> string \<Rightarrow> entry list \<Rightarrow> chunk list" where
  \<comment> \<open>the loop \<open>for filing_type_dir in company_dir.iterdir()\<close>\<close>
  "process_dirs get_text tk [] = []"
| "process_dirs get_text tk (Plain name # es) = process_dirs get_text tk es"
| "process_dirs get_text tk (Directory ft children # es) =
     (let files = [f \<leftarrow> children. ends_with ''.html'' (fst f)] @
                  [f \<leftarrow> children. ends_with ''.xml'' (fst f)]
      in concat (map (\<lambda>file_path. process_file get_text file_path tk ft) files)
         @ process_dirs get_text tk es)"

definition process_company :: "(string \<Rightarrow> string) \<Rightarrow> (string \<Rightarrow> entry list option) \<Rightarrow> string \<Rightarrow> chunk list" where
  \<comment> \<open>\<open>raw_data_dir\<close> maps a ticker to the entries of its directory, \<open>None\<close> when the
      directory does not exist\<close>
  "process_company get_text raw_data_dir tk =
     (case raw_data_dir tk of None \<Rightarrow> [] | Some es \<Rightarrow> process_dirs get_text tk es)"

section \<open>Vector Index and Hybrid Ranker\<close>

text \<open>
  A floating-point number is modelled by the real number it denotes. \<open>round_bits p\<close> rounds
  a real to the nearest number with \<open>p\<close> significant bits, ties to even, which is the
  rounding of IEEE 754 away from overflow and subnormal numbers; 24 bits give float32 and
  53 bits the doubles of Python's \<open>float\<close>.

  The sentence model and the FAISS index are outside the program: an index is the function
  that takes the query text and the number \<open>k\<close> of neighbours asked for to the pairs of a
  similarity (the value of a float32 number) and a position that \<open>index.search\<close> returns for
  the encoded query, or to an error when the call raises.

  The arithmetic of \<open>0.7 * similarity + 0.3 * metadata_score\<close> is a parameter \<open>fuse\<close> of
  \<open>search\<close>: the result depends on the number formats that NumPy chooses. \<open>float32_fuse\<close> is
  that arithmetic for a \<open>numpy.float32\<close> similarity and a Python \<open>float\<close> score under NumPy
  2, where the Python constants and the Python product adapt to float32. The sums of
  \<open>score_metadata\<close> are exact: their rounding as doubles is far below what float32 resolves.
\<close>

fun binade :: "nat \<Rightarrow> real \<Rightarrow> int" where
  \<comment> \<open>the exponent \<open>e\<close> with \<open>2 ^ e \<le> x < 2 ^ (e + 1)\<close> of a positive \<open>x\<close>, found in at most
      \<open>fuel\<close> steps\<close>
  "binade fuel x =
     (if fuel = 0 then 0
      else if 2 \<le> x then binade (fuel - 1) (x / 2) + 1
      else if x < 1 then binade (fuel - 1) (2 * x) - 1
      else 0)"

declare binade.simps [simp del]

definition round_even :: "real \<Rightarrow> int" where
  \<comment> \<open>the nearest integer, the even one of two that are equally near\<close>
  "round_even x =
     (let f = \<lfloor>x\<rfloor>; r = x - of_int f
      in if r < 1 / 2 then f else if 1 / 2 < r then f + 1 else if even f then f else f + 1)"

definition round_bits :: "nat \<Rightarrow> real \<Rightarrow> real" where
  "round_bits p x =
     (if x = 0 then 0
      else (let q = 2 powi (binade 1100 \<bar>x\<bar> - int p + 1)
            in sgn x * of_int (round_even (\<bar>x\<bar> / q)) * q))"

definition float32 :: "real \<Rightarrow> real" where
  "float32 x = round_bits 24 x"

definition float64 :: "real \<Rightarrow> real" where
  "float64 x = round_bits 53 x"

definition float32_fuse :: "real \<Rightarrow> real \<Rightarrow> real" where
  \<comment> \<open>\<open>0.7 * similarity\<close> is a float32 product with the constant rounded to float32;
      \<open>0.3 * metadata_score\<close> is a product of doubles, rounded to float32 for the float32 sum\<close>
  "float32_fuse similarity metadata_score =
     float32 (float32 (float32 0.7 * similarity)
              + float32 (float64 (float64 0.3 * float64 metadata_score)))"


datatype error = ValueError | IndexError | FileNotFoundError | ReadError | SearchError

record search_result =
  content_r :: string
  ticker_r :: string
  filing_type_r :: string
  section_r :: string
  chunk_id_r :: string
  financial_concepts_r :: "string list"
  similarity_score :: real
  final_score :: real

type_synonym faiss_index = "string \<Rightarrow> int \<Rightarrow> error + (real \<times> int) list"

record engine =
  index :: "faiss_index option"
  chunks_data :: "chunk list"

datatype 'a artifact = Missing | Unreadable | Present 'a

record filesystem =
  embeddings_file :: "real list list artifact"
  index_file :: "faiss_index artifact"
  metadata_file :: "chunk list artifact"

definition exists_file :: "'a artifact \<Rightarrow> bool" where
  \<comment> \<open>\<open>Path.exists()\<close>\<close>
  "exists_file f \<longleftrightarrow> (case f of Missing \<Rightarrow> False | _ \<Rightarrow> True)"

definition read_file :: "'a artifact \<Rightarrow> error + 'a" where
  \<comment> \<open>\<open>faiss.read_index\<close> and \<open>pickle.load\<close> on an opened file\<close>
  "read_file f = (case f of Missing \<Rightarrow> Inl FileNotFoundError | Unreadable \<Rightarrow> Inl ReadError
                  | Present x \<Rightarrow> Inr x)"

definition load_index :: "filesystem \<Rightarrow> engine \<Rightarrow> (error + bool) \<times> engine" where
  \<comment> \<open>the result and the engine after the call; an exception leaves the engine as it was
      when it was raised\<close>
  "load_index fs eng =
     (if \<not> list_all (\<lambda>b. b) [exists_file (embeddings_file fs), exists_file (index_file fs),
                               exists_file (metadata_file fs)]
      then (Inr False, eng)
      else (case read_file (index_file fs) of
              Inl e \<Rightarrow> (Inl e, eng)
            | Inr i \<Rightarrow>
                (let eng = eng\<lparr>index := Some i\<rparr>
                 in case read_file (metadata_file fs) of
                      Inl e \<Rightarrow> (Inl e, eng)
                    | Inr m \<Rightarrow> (Inr True, eng\<lparr>chunks_data := m\<rparr>))))"

fun section_loop :: "string list \<Rightarrow> string \<Rightarrow> real \<Rightarrow> real" where
  \<comment> \<open>the loop over \<open>query_info['relevant_sections']\<close> with its \<open>break\<close>\<close>
  "section_loop [] chunk_section score = score"
| "section_loop (s # ss) chunk_section score =
     (if str_in (lower s) (lower chunk_section) then score + 0.2
      else section_loop ss chunk_section score)"

definition score_metadata :: "chunk \<Rightarrow> query_info \<Rightarrow> real" where
  "score_metadata c qi =
     (let score = 0.1;
          score = (if tickers qi \<noteq> [] \<and> ticker c \<in> set (tickers qi) then score + 0.3 else score);
          score = (if filing_types qi \<noteq> [] \<and> filing_type c \<in> set (filing_types qi)
                   then score + 0.2 else score);
          score = (if relevant_sections qi \<noteq> []
                   then section_loop (relevant_sections qi) (section_of c) score else score);
          score = (if financial_concepts_q qi \<noteq> []
                   then score + real (length (remdups [x \<leftarrow> financial_concepts c.
                                                        x \<in> set (financial_concepts_q qi)])) * 0.1
                   else score)
      in min score 1.0)"

definition py_index :: "'a list \<Rightarrow> int \<Rightarrow> error + 'a" where
  \<comment> \<open>\<open>xs[i]\<close>: positions \<open>0 .. len - 1\<close>, and \<open>- len .. - 1\<close> counted from the end\<close>
  "py_index xs i =
     (if 0 \<le> i \<and> i < int (length xs) then Inr (xs ! nat i)
      else if i < 0 \<and> - int (length xs) \<le> i then Inr (xs ! nat (int (length xs) + i))
      else Inl IndexError)"

definition py_prefix :: "'a list \<Rightarrow> int \<Rightarrow> 'a list" where
  \<comment> \<open>\<open>xs[:k]\<close>: a negative bound counts from the end\<close>
  "py_prefix xs k = (if k < 0 then take (nat (int (length xs) + k)) xs else take (nat k) xs)"

definition make_result :: "chunk \<Rightarrow> real \<Rightarrow> real \<Rightarrow> search_result" where
  "make_result c similarity final =
     \<lparr>content_r = content c, ticker_r = ticker c, filing_type_r = filing_type c,
      section_r = section_of c, chunk_id_r = chunk_id c,
      financial_concepts_r = financial_concepts c,
      similarity_score = similarity, final_score = final\<rparr>"

fun score_candidates ::
  "(real \<Rightarrow> real \<Rightarrow> real) \<Rightarrow> chunk list \<Rightarrow> query_info \<Rightarrow> (real \<times> int) list
   \<Rightarrow> error + search_result list" where
  \<comment> \<open>the loop \<open>for similarity, idx in zip(similarities[0], indices[0])\<close>; for the value
      of a float32 number, to be below 0.1 is to be below the float32 nearest to 0.1\<close>
  "score_candidates fuse cd qi [] = Inr []"
| "score_candidates fuse cd qi ((similarity, idx) # rest) =
     (if similarity < 0.1 then score_candidates fuse cd qi rest
      else (case py_index cd idx of
              Inl e \<Rightarrow> Inl e
            | Inr c \<Rightarrow>
                (let metadata_score = score_metadata c qi;
                     final = fuse similarity metadata_score
                 in case score_candidates fuse cd qi rest of
                      Inl e \<Rightarrow> Inl e
                    | Inr results \<Rightarrow> Inr (make_result c similarity final # results))))"

definition returns_k :: "faiss_index \<Rightarrow> string \<Rightarrow> bool" where
  \<comment> \<open>the contract of \<open>index.search\<close>: a call that returns gives exactly \<open>k\<close> pairs (FAISS
      pads the answer when the index holds fewer vectors)\<close>
  "returns_k ix query \<longleftrightarrow> (\<forall>k cands. ix query k = Inr cands \<longrightarrow> int (length cands) = k)"

definition sorted_desc :: "search_result list \<Rightarrow> search_result list" where
  \<comment> \<open>\<open>sorted(results, key=lambda x: x.final_score, reverse=True)\<close>: Python's sort is
      stable, also with \<open>reverse=True\<close>\<close>
  "sorted_desc rs = sort_key (\<lambda>r. - final_score r) rs"

definition candidates :: "engine \<Rightarrow> string \<Rightarrow> int \<Rightarrow> error + (real \<times> int) list" where
  \<comment> \<open>the candidate pool: \<open>self.index.search(query_embedding, search_k)\<close>\<close>
  "candidates eng query top_k =
     (case index eng of
        None \<Rightarrow> Inl ValueError
      | Some ix \<Rightarrow> ix query (min (top_k * 5) (int (length (chunks_data eng)))))"

definition search ::
  "(real \<Rightarrow> real \<Rightarrow> real) \<Rightarrow> engine \<Rightarrow> string \<Rightarrow> int \<Rightarrow> error + search_result list" where
  "search fuse eng query top_k =
     (case index eng of
        None \<Rightarrow> Inl ValueError
      | Some ix \<Rightarrow>
          (let query_info = parse_query query;
               search_k = min (top_k * 5) (int (length (chunks_data eng)))
           in case ix query search_k of
                Inl e \<Rightarrow> Inl e
              | Inr cands \<Rightarrow>
                  (case score_candidates fuse (chunks_data eng) query_info cands of
                     Inl e \<Rightarrow> Inl e
                   | Inr results \<Rightarrow> Inr (py_prefix (sorted_desc results) top_k))))"

section \<open>Example data\<close>

definition section_names :: "string list" where
  \<comment> \<open>the keys of \<open>self.section_patterns\<close>\<close>
  "section_names = map fst section_patterns"

definition pattern_of :: "string \<Rightarrow> regex" where
  \<comment> \<open>\<open>self.section_patterns[name]\<close>\<close>
  "pattern_of name = (case map_of section_patterns name of Some rx \<Rightarrow> rx | None \<Rightarrow> [])"

definition marker_doc :: string where
  "marker_doc = ''Item 1. Business'' @ replicate 201 (CHR ''x'') @ ''Item 1A. Risk Factors''"

definition short_doc :: string where
  "short_doc = ''Item 1. Business'' @ '' short text '' @ ''Item 1A. Risk Factors''"

definition adjacent_doc :: string where
  "adjacent_doc = ''Item 1. BusinessItem 8. Financial Statements'' @ replicate 201 (CHR ''x'')"

definition form4_dir :: "string \<Rightarrow> entry list option" where
  \<comment> \<open>a raw data directory with two Form 4 filings of one company, named as
      \<open>organize_files\<close> names them: accession number, \<open>_\<close>, file name\<close>
  "form4_dir tk =
     (if tk = ''AAPL''
      then Some [Plain ''filing_metadata.json'',
                 Directory ''4''
                   [(''0000320193-22-000108_primary-document.xml'', Some (replicate 201 (CHR ''x''))),
                    (''0000320193-23-000106_primary-document.xml'', Some (replicate 201 (CHR ''y'')))]]
      else None)"

definition example_chunk :: chunk where
  "example_chunk =
     \<lparr>content = ''Our business is subject to risk.'', ticker = ''AAPL'', filing_type = ''10-K'',
      section_of = ''Risk Factors'', estimated_year = Some 0, chunk_id = ''AAPL_10-K_0_0'',
      financial_concepts = [''risk_factors'', ''climate_esg''], word_count = 6\<rparr>"

definition other_chunk :: chunk where
  "other_chunk =
     \<lparr>content = ''We sell software.'', ticker = ''MSFT'', filing_type = ''10-Q'',
      section_of = ''Business'', estimated_year = None, chunk_id = ''MSFT_10-Q_None_0'',
      financial_concepts = [], word_count = 3\<rparr>"


definition form4_chunk :: chunk where
  "form4_chunk =
     \<lparr>content = ''Statement of changes in beneficial ownership.'', ticker = ''AAPL'',
      filing_type = ''4'', section_of = ''General Content'', estimated_year = Some 0,
      chunk_id = ''AAPL_4_0_0'', financial_concepts = [], word_count = 6\<rparr>"

definition example_index :: faiss_index where
  \<comment> \<open>an index over two vectors: it rejects \<open>k \<le> 0\<close> and pads its answer to \<open>k\<close> pairs;
      both similarities are float32 numbers\<close>
  "example_index query k =
     (if k \<le> 0 then Inl SearchError
      else Inr (take (nat k) ([(5 / 8, 1), (9766737 / 16777216, 0)] @ replicate (nat k) (- 1, - 1))))"

definition example_engine :: engine where
  "example_engine = \<lparr>index = Some example_index, chunks_data = [example_chunk, other_chunk]\<rparr>"



definition empty_engine :: engine where
  \<comment> \<open>the engine as \<open>__init__\<close> leaves it\<close>
  "empty_engine = \<lparr>index = None, chunks_data = []\<rparr>"

section \<open>Evaluation of case conversion\<close>

text \<open>
  The characters that \<open>lower_char\<close> changes have bit 6 set and bit 5 clear: below 0x80 the
  low five bits are between 1 and 26, from 0x80 on they are neither 23 (0xD7) nor 31 (0xDF).
  The lower-case letter sets bit 5.
\<close>

lemma lower_char_code [code]:
  "lower_char (Char b0 b1 b2 b3 b4 b5 b6 b7) =
     (if b6 \<and> \<not> b5 \<and>
         (if b7 then \<not> (b0 \<and> b1 \<and> b2 \<and> b4)
          else (b0 \<or> b1 \<or> b2 \<or> b3 \<or> b4) \<and> \<not> (b4 \<and> b3 \<and> (b2 \<or> (b1 \<and> b0))))
      then Char b0 b1 b2 b3 b4 True b6 b7 else Char b0 b1 b2 b3 b4 b5 b6 b7)"
proof (cases "b6 \<and> \<not> b5")
  case False
  then show ?thesis
    by (cases b6; cases b5; simp add: lower_char_def uppers_def lowers_def)
next
  case True
  then show ?thesis
    by (cases b0; cases b1; cases b2; cases b3; cases b4; cases b7;
        simp add: lower_char_def uppers_def lowers_def)
qed

section \<open>Properties of the Hybrid Ranker\<close>

lemma starts_with_iff: "starts_with xs ys \<longleftrightarrow> (\<exists>ss. ys = xs @ ss)"
  by (induction xs ys rule: starts_with.induct) auto

lemma str_in_iff: "str_in xs ys \<longleftrightarrow> (\<exists>ps ss. ys = ps @ xs @ ss)"
proof (induction ys)
  case Nil
  then show ?case by simp
next
  case (Cons y ys)
  show ?case
  proof
    assume "str_in xs (y # ys)"
    then consider "starts_with xs (y # ys)" | "str_in xs ys" by auto
    then show "\<exists>ps ss. y # ys = ps @ xs @ ss"
    proof cases
      case 1
      then obtain ss where "y # ys = xs @ ss" by (auto simp: starts_with_iff)
      then have "y # ys = [] @ xs @ ss" by simp
      then show ?thesis by blast
    next
      case 2
      with Cons obtain ps ss where "ys = ps @ xs @ ss" by blast
      then have "y # ys = (y # ps) @ xs @ ss" by simp
      then show ?thesis by blast
    qed
  next
    assume "\<exists>ps ss. y # ys = ps @ xs @ ss"
    then obtain ps ss where e: "y # ys = ps @ xs @ ss" by blast
    show "str_in xs (y # ys)"
    proof (cases ps)
      case Nil
      with e have "starts_with xs (y # ys)" by (auto simp: starts_with_iff)
      then show ?thesis by simp
    next
      case (Cons p ps')
      with e have "ys = ps' @ xs @ ss" by simp
      with Cons.IH have "str_in xs ys" by blast
      then show ?thesis by simp
    qed
  qed
qed









lemma accented_section:
  "str_in (lower [CHR ''R'', CHR 0xC9, CHR ''S'', CHR ''U'', CHR ''M'', CHR 0xC9])
          (lower [CHR ''r'', CHR 0xE9, CHR ''s'', CHR ''u'', CHR ''m'', CHR 0xE9])"
  by code_simp

lemma parse_risk:
  "parse_query ''risk'' =
     \<lparr>original_query = ''risk'', tickers = [],
      temporal_info = \<lparr>years = [], quarters = [], period_type = None\<rparr>,
      financial_concepts_q = [''risk_factors''],
      relevant_sections = [''Item 1A - Risk Factors'',
         ''Item 7A - Quantitative and Qualitative Disclosures About Market Risk''],
      filing_types = [''10-K'', ''10-Q'', ''8-K''],
      search_strategy = \<lparr>search_type = ''semantic'', filters = [],
                         ranking_factors = [''semantic_similarity'', ''section_relevance'',
                                            ''temporal_relevance'']\<rparr>\<rparr>"
  by code_simp

lemma no_section_hit:
  "\<not> str_in (lower ''Item 1A - Risk Factors'') (lower ''Risk Factors'')"
  "\<not> str_in (lower ''Item 7A - Quantitative and Qualitative Disclosures About Market Risk'') (lower ''Risk Factors'')"
  "\<not> str_in (lower ''Item 1A - Risk Factors'') (lower ''Business'')"
  "\<not> str_in (lower ''Item 7A - Quantitative and Qualitative Disclosures About Market Risk'') (lower ''Business'')"
  "\<not> str_in (lower ''Item 1A - Risk Factors'') (lower ''General Content'')"
  "\<not> str_in (lower ''Item 7A - Quantitative and Qualitative Disclosures About Market Risk'') (lower ''General Content'')"
  by code_simp+

lemma example_scores:
  "score_metadata example_chunk (parse_query ''risk'') = 0.4"
  "score_metadata other_chunk (parse_query ''risk'') = 0.3"
  "score_metadata form4_chunk (parse_query ''risk'') = 0.1"
  unfolding parse_risk score_metadata_def
  by (simp_all add: example_chunk_def other_chunk_def form4_chunk_def no_section_hit Let_def)

lemmas float_eval = float32_fuse_def float32_def float64_def round_bits_def binade.simps
  round_even_def Let_def power_int_minus

lemma fuse_values:
  "float32_fuse (5 / 8) (3 / 10) = 4424991 / 8388608"
  "float32_fuse (9766737 / 16777216) (2 / 5) = 4424991 / 8388608"
  "float32_fuse (13421775 / 67108864) (1 / 10) = 2852127 / 16777216"
  by (simp_all add: float_eval)

lemma example_search:
  "search float32_fuse example_engine ''risk'' 2
     = Inr [make_result other_chunk (5 / 8) (4424991 / 8388608),
            make_result example_chunk (9766737 / 16777216) (4424991 / 8388608)]"
  unfolding search_def
  by (simp add: example_engine_def example_index_def Let_def py_index_def example_scores
        fuse_values sorted_desc_def py_prefix_def make_result_def)



lemma py_index_mem: "py_index xs i = Inr x \<Longrightarrow> x \<in> set xs"
  by (auto simp: py_index_def split: if_splits)

lemma score_candidates_sound:
  "score_candidates fuse cd qi cands = Inr rs \<Longrightarrow>
   \<forall>r\<in>set rs. similarity_score r \<ge> 0.1 \<and>
     (\<exists>c\<in>set cd. r = make_result c (similarity_score r)
                         (fuse (similarity_score r) (score_metadata c qi)))"
proof (induction cands arbitrary: rs)
  case Nil
  then show ?case by simp
next
  case (Cons p cands)
  obtain similarity idx where p: "p = (similarity, idx)" by (cases p)
  show ?case
  proof (cases "similarity < 0.1")
    case True
    with Cons p show ?thesis by simp
  next
    case False
    with Cons.prems p obtain c rest where
      c: "py_index cd idx = Inr c" and rest: "score_candidates fuse cd qi cands = Inr rest"
      and rs: "rs = make_result c similarity (fuse similarity (score_metadata c qi)) # rest"
      by (auto simp: Let_def split: sum.splits)
    from Cons.IH [OF rest] have ih: "\<forall>r\<in>set rest. similarity_score r \<ge> 0.1 \<and>
       (\<exists>c\<in>set cd. r = make_result c (similarity_score r)
                         (fuse (similarity_score r) (score_metadata c qi)))" .
    have "c \<in> set cd" using c by (rule py_index_mem)
    with False ih rs show ?thesis by (auto simp: make_result_def)
  qed
qed

lemma filter_take_prefix: "\<exists>n. filter P (take k xs) = take n (filter P xs)"
proof (induction xs arbitrary: k)
  case Nil
  then show ?case by simp
next
  case (Cons x xs)
  show ?case
  proof (cases k)
    case 0
    have "filter P (take 0 (x # xs)) = take 0 (filter P (x # xs))" by simp
    with 0 show ?thesis by blast
  next
    case (Suc j)
    from Cons obtain n where n: "filter P (take j xs) = take n (filter P xs)" by blast
    show ?thesis
    proof (cases "P x")
      case True
      with n Suc have "filter P (take k (x # xs)) = take (Suc n) (filter P (x # xs))" by simp
      then show ?thesis by blast
    next
      case False
      with n Suc have "filter P (take k (x # xs)) = take n (filter P (x # xs))" by simp
      then show ?thesis by blast
    qed
  qed
qed

lemma sorted_desc_sorted: "sorted_wrt (\<lambda>a b. final_score a \<ge> final_score b) (sorted_desc rs)"
proof -
  have "sorted (map (\<lambda>r. - final_score r) (sorted_desc rs))"
    unfolding sorted_desc_def by (rule sorted_sort_key)
  then show ?thesis by (simp add: sorted_map)
qed

lemma sorted_desc_stable:
  "filter (\<lambda>r. final_score r = v) (sorted_desc rs) = filter (\<lambda>r. final_score r = v) rs"
proof -
  have "filter (\<lambda>r. - final_score r = - v) (sort_key (\<lambda>r. - final_score r) rs)
          = filter (\<lambda>r. - final_score r = - v) rs"
    by (rule sort_key_stable)
  then show ?thesis by (simp add: sorted_desc_def)
qed

lemma mset_sorted_desc: "mset (sorted_desc rs) = mset rs"
  by (simp add: sorted_desc_def)

lemma set_sorted_desc: "set (sorted_desc rs) = set rs"
  by (simp add: sorted_desc_def)

lemma set_py_prefix: "set (py_prefix xs k) \<subseteq> set xs"
  by (auto simp: py_prefix_def dest: in_set_takeD)

lemma search_results:
  assumes "search fuse eng query top_k = Inr results"
  obtains ix cands unsorted where
    "index eng = Some ix"
    "ix query (min (top_k * 5) (int (length (chunks_data eng)))) = Inr cands"
    "score_candidates fuse (chunks_data eng) (parse_query query) cands = Inr unsorted"
    "results = py_prefix (sorted_desc unsorted) top_k"
  using assms by (auto simp: search_def Let_def split: option.splits sum.splits)

lemma search_scores:
  assumes "search fuse eng query top_k = Inr results" and "r \<in> set results"
  obtains c where "c \<in> set (chunks_data eng)" "similarity_score r \<ge> 0.1"
    "r = make_result c (similarity_score r) (final_score r)"
    "final_score r = fuse (similarity_score r) (score_metadata c (parse_query query))"
proof -
  from assms(1) obtain ix cands unsorted where
    uns: "score_candidates fuse (chunks_data eng) (parse_query query) cands = Inr unsorted"
    and results: "results = py_prefix (sorted_desc unsorted) top_k"
    by (rule search_results)
  have "set results \<subseteq> set unsorted"
    using set_py_prefix [of "sorted_desc unsorted" top_k] by (simp add: results set_sorted_desc)
  with assms(2) have "r \<in> set unsorted" by blast
  with score_candidates_sound [OF uns]
  obtain c where c: "c \<in> set (chunks_data eng)" and sim: "similarity_score r \<ge> 0.1"
    and r: "r = make_result c (similarity_score r)
                  (fuse (similarity_score r) (score_metadata c (parse_query query)))"
    by blast
  from r have fs: "final_score r = fuse (similarity_score r) (score_metadata c (parse_query query))"
    by (metis make_result_def search_result.select_convs(8))
  with r have r': "r = make_result c (similarity_score r) (final_score r)" by simp
  from c sim r' fs show ?thesis by (rule that)
qed

text \<open>
  Claim C2, as amended. For an index that answers a request for \<open>k\<close> neighbours with exactly
  \<open>k\<close> pairs (\<open>returns_k\<close>) and for any arithmetic \<open>fuse\<close>, every list that \<open>search\<close> returns
  for a query and a count \<open>K\<close> is the first \<open>K\<close> results of the scored candidates sorted by
  descending \<open>final_score\<close>, where the sorted list is a rearrangement of the scored
  candidates that keeps results of equal score in the order of the similarity search. So
  it has at most \<open>K\<close> results in descending order; the candidate pool has
  \<open>min (K * 5) (corpus size)\<close> pairs; and each result has a similarity of at least 0.1,
  carries the fields of a chunk of the corpus, and has as final score the value that the
  arithmetic gives to 0.7 times its similarity plus 0.3 times the metadata score of that
  chunk, which in floating point need not be the exact value.
\<close>

theorem search_ranked:
  assumes ix: "index eng = Some ix"
      and contract: "returns_k ix query"
      and res: "search fuse eng query top_k = Inr results"
  shows "(\<exists>cands unsorted.
             candidates eng query top_k = Inr cands
           \<and> int (length cands) = min (top_k * 5) (int (length (chunks_data eng)))
           \<and> score_candidates fuse (chunks_data eng) (parse_query query) cands = Inr unsorted
           \<and> results = take (nat top_k) (sorted_desc unsorted)
           \<and> mset (sorted_desc unsorted) = mset unsorted
           \<and> sorted_wrt (\<lambda>a b. final_score a \<ge> final_score b) (sorted_desc unsorted)
           \<and> (\<forall>v. filter (\<lambda>r. final_score r = v) (sorted_desc unsorted)
                    = filter (\<lambda>r. final_score r = v) unsorted)
           \<and> (\<forall>v. \<exists>n. filter (\<lambda>r. final_score r = v) results
                         = take n (filter (\<lambda>r. final_score r = v) unsorted)))
       \<and> 0 \<le> top_k
       \<and> int (length results) \<le> top_k
       \<and> sorted_wrt (\<lambda>a b. final_score a \<ge> final_score b) results
       \<and> (\<forall>r\<in>set results. similarity_score r \<ge> 0.1
             \<and> (\<exists>c\<in>set (chunks_data eng).
                   r = make_result c (similarity_score r) (final_score r)
                 \<and> final_score r = fuse (similarity_score r)
                                      (score_metadata c (parse_query query))))"
proof -
  from res obtain ix' cands unsorted where
    ix': "index eng = Some ix'"
    and cands: "ix' query (min (top_k * 5) (int (length (chunks_data eng)))) = Inr cands"
    and uns: "score_candidates fuse (chunks_data eng) (parse_query query) cands = Inr unsorted"
    and results: "results = py_prefix (sorted_desc unsorted) top_k"
    by (rule search_results)
  from ix ix' have [simp]: "ix' = ix" by simp
  from contract cands
  have len: "int (length cands) = min (top_k * 5) (int (length (chunks_data eng)))"
    by (simp add: returns_k_def)
  then have k0: "0 \<le> top_k" by (simp add: min_def split: if_splits)
  then have take: "results = take (nat top_k) (sorted_desc unsorted)"
    by (simp add: results py_prefix_def)
  have 1: "int (length results) \<le> top_k" using k0 by (simp add: take)
  have 2: "sorted_wrt (\<lambda>a b. final_score a \<ge> final_score b) results"
    unfolding take by (rule sorted_wrt_take) (rule sorted_desc_sorted)
  have stable: "\<forall>v. \<exists>n. filter (\<lambda>r. final_score r = v) results
                      = take n (filter (\<lambda>r. final_score r = v) unsorted)"
  proof
    fix v
    show "\<exists>n. filter (\<lambda>r. final_score r = v) results
                 = take n (filter (\<lambda>r. final_score r = v) unsorted)"
      using filter_take_prefix [of "\<lambda>r. final_score r = v" "nat top_k" "sorted_desc unsorted"]
      by (simp add: take sorted_desc_stable)
  qed
  have pool: "candidates eng query top_k = Inr cands"
    using ix cands by (simp add: candidates_def)
  have 3: "\<exists>cands unsorted.
             candidates eng query top_k = Inr cands
           \<and> int (length cands) = min (top_k * 5) (int (length (chunks_data eng)))
           \<and> score_candidates fuse (chunks_data eng) (parse_query query) cands = Inr unsorted
           \<and> results = take (nat top_k) (sorted_desc unsorted)
           \<and> mset (sorted_desc unsorted) = mset unsorted
           \<and> sorted_wrt (\<lambda>a b. final_score a \<ge> final_score b) (sorted_desc unsorted)
           \<and> (\<forall>v. filter (\<lambda>r. final_score r = v) (sorted_desc unsorted)
                    = filter (\<lambda>r. final_score r = v) unsorted)
           \<and> (\<forall>v. \<exists>n. filter (\<lambda>r. final_score r = v) results
                         = take n (filter (\<lambda>r. final_score r = v) unsorted))"
    using pool len uns take mset_sorted_desc [of unsorted] sorted_desc_sorted [of unsorted]
      sorted_desc_stable [of _ unsorted] stable
    by blast
  have 4: "\<forall>r\<in>set results. similarity_score r \<ge> 0.1
             \<and> (\<exists>c\<in>set (chunks_data eng).
                   r = make_result c (similarity_score r) (final_score r)
                 \<and> final_score r = fuse (similarity_score r)
                                      (score_metadata c (parse_query query)))"
  proof
    fix r assume "r \<in> set results"
    with res obtain c where "c \<in> set (chunks_data eng)" "similarity_score r \<ge> 0.1"
      "r = make_result c (similarity_score r) (final_score r)"
      "final_score r = fuse (similarity_score r) (score_metadata c (parse_query query))"
      by (rule search_scores)
    then show "similarity_score r \<ge> 0.1
             \<and> (\<exists>c\<in>set (chunks_data eng).
                   r = make_result c (similarity_score r) (final_score r)
                 \<and> final_score r = fuse (similarity_score r)
                                      (score_metadata c (parse_query query)))"
      by blast
  qed
  from 1 2 3 4 k0 show ?thesis by blast
qed

theorem search_ranked_witness:
  "index example_engine = Some example_index
   \<and> returns_k example_index ''risk''
   \<and> search float32_fuse example_engine ''risk'' 2
       = Inr [make_result other_chunk (5 / 8) (4424991 / 8388608),
              make_result example_chunk (9766737 / 16777216) (4424991 / 8388608)]
   \<and> (\<exists>cands. candidates example_engine ''risk'' 2 = Inr cands \<and> int (length cands) = 2)
   \<and> int (length [make_result other_chunk (5 / 8) (4424991 / 8388608),
                   make_result example_chunk (9766737 / 16777216) (4424991 / 8388608)]) \<le> 2
   \<and> sorted_wrt (\<lambda>a b. final_score a \<ge> final_score b)
        [make_result other_chunk (5 / 8) (4424991 / 8388608),
         make_result example_chunk (9766737 / 16777216) (4424991 / 8388608)]"
proof -
  have h1: "index example_engine = Some example_index" by (simp add: example_engine_def)
  have h2: "returns_k example_index ''risk''"
    by (auto simp: returns_k_def example_index_def)
  note h3 = example_search
  have len: "min (2 * 5) (int (length (chunks_data example_engine))) = 2"
    by (simp add: example_engine_def)
  from search_ranked [OF h1 h2 h3] h1 h2 h3 show ?thesis
    unfolding len by blast
qed

text \<open>
  In float32 arithmetic the final score of the first result of the example is not 0.7 times
  its similarity plus 0.3 times the metadata score of either chunk of the corpus.
\<close>

theorem exact_score_counterexample:
  "search float32_fuse example_engine ''risk'' 2
       = Inr [make_result other_chunk (5 / 8) (4424991 / 8388608),
              make_result example_chunk (9766737 / 16777216) (4424991 / 8388608)]
   \<and> final_score (make_result other_chunk (5 / 8) (4424991 / 8388608))
       \<noteq> 0.7 * similarity_score (make_result other_chunk (5 / 8) (4424991 / 8388608))
          + 0.3 * score_metadata other_chunk (parse_query ''risk'')
   \<and> final_score (make_result other_chunk (5 / 8) (4424991 / 8388608))
       \<noteq> 0.7 * similarity_score (make_result other_chunk (5 / 8) (4424991 / 8388608))
          + 0.3 * score_metadata example_chunk (parse_query ''risk'')"
  by (simp add: example_search example_scores make_result_def)




section \<open>Properties of the persisted index\<close>

text \<open>
  Claim C9, as amended. When one of the three artifacts is missing, \<open>load_index\<close> returns
  false without raising and leaves the engine as it was, and the engine changes only when
  all three are present. With all three present, and the index and the chunk list
  readable, both are loaded; with the index readable and the chunk list unreadable the
  call raises after the index has been replaced, and the engine keeps its old chunk list;
  with the index unreadable the call raises and the engine is as it was.
\<close>

theorem load_index_cases:
  "(\<not> exists_file (embeddings_file fs) \<or> \<not> exists_file (index_file fs)
      \<or> \<not> exists_file (metadata_file fs)
     \<longrightarrow> load_index fs eng = (Inr False, eng))
   \<and> (snd (load_index fs eng) \<noteq> eng
     \<longrightarrow> exists_file (embeddings_file fs) \<and> exists_file (index_file fs)
         \<and> exists_file (metadata_file fs))
   \<and> (\<forall>i m. exists_file (embeddings_file fs) \<and> index_file fs = Present i
              \<and> metadata_file fs = Present m
     \<longrightarrow> load_index fs eng = (Inr True, eng\<lparr>index := Some i, chunks_data := m\<rparr>))
   \<and> (\<forall>i. exists_file (embeddings_file fs) \<and> index_file fs = Present i
            \<and> metadata_file fs = Unreadable
     \<longrightarrow> load_index fs eng = (Inl ReadError, eng\<lparr>index := Some i\<rparr>))
   \<and> (exists_file (embeddings_file fs) \<and> index_file fs = Unreadable
        \<and> exists_file (metadata_file fs)
     \<longrightarrow> load_index fs eng = (Inl ReadError, eng))"
  by (auto simp: load_index_def exists_file_def read_file_def Let_def
           split: artifact.splits sum.splits)

theorem load_index_cases_witness:
  "\<not> exists_file (index_file \<lparr>embeddings_file = Present [], index_file = Missing,
                                metadata_file = Present [example_chunk]\<rparr>)
   \<and> load_index \<lparr>embeddings_file = Present [], index_file = Missing,
                  metadata_file = Present [example_chunk]\<rparr> empty_engine
       = (Inr False, empty_engine)
   \<and> exists_file (embeddings_file \<lparr>embeddings_file = Present [], index_file = Present example_index,
                                   metadata_file = Present [example_chunk]\<rparr>)
   \<and> load_index \<lparr>embeddings_file = Present [], index_file = Present example_index,
                  metadata_file = Present [example_chunk]\<rparr> empty_engine
       = (Inr True, empty_engine\<lparr>index := Some example_index, chunks_data := [example_chunk]\<rparr>)
   \<and> snd (load_index \<lparr>embeddings_file = Present [], index_file = Present example_index,
                  metadata_file = Present [example_chunk]\<rparr> empty_engine) \<noteq> empty_engine
   \<and> load_index \<lparr>embeddings_file = Present [], index_file = Present example_index,
                  metadata_file = Unreadable\<rparr> empty_engine
       = (Inl ReadError, empty_engine\<lparr>index := Some example_index\<rparr>)
   \<and> load_index \<lparr>embeddings_file = Present [], index_file = Unreadable,
                  metadata_file = Present [example_chunk]\<rparr> empty_engine
       = (Inl ReadError, empty_engine)"
  using load_index_cases [of "\<lparr>embeddings_file = Present [], index_file = Missing,
                  metadata_file = Present [example_chunk]\<rparr>" empty_engine]
        load_index_cases [of "\<lparr>embeddings_file = Present [], index_file = Present example_index,
                  metadata_file = Present [example_chunk]\<rparr>" empty_engine]
        load_index_cases [of "\<lparr>embeddings_file = Present [], index_file = Present example_index,
                  metadata_file = Unreadable\<rparr>" empty_engine]
        load_index_cases [of "\<lparr>embeddings_file = Present [], index_file = Unreadable,
                  metadata_file = Present [example_chunk]\<rparr>" empty_engine]
  by (simp add: exists_file_def empty_engine_def)

text \<open>
  With the three files present and a chunk list that cannot be read, the call raises and
  the engine is loaded in part: it has the new index and still no chunks.
\<close>

theorem partial_load_counterexample:
  "exists_file (embeddings_file \<lparr>embeddings_file = Present [], index_file = Present example_index,
                                 metadata_file = Unreadable\<rparr>)
   \<and> exists_file (index_file \<lparr>embeddings_file = Present [], index_file = Present example_index,
                               metadata_file = Unreadable\<rparr>)
   \<and> exists_file (metadata_file \<lparr>embeddings_file = Present [], index_file = Present example_index,
                                  metadata_file = Unreadable\<rparr>)
   \<and> fst (load_index \<lparr>embeddings_file = Present [], index_file = Present example_index,
                       metadata_file = Unreadable\<rparr> empty_engine) = Inl ReadError
   \<and> index (snd (load_index \<lparr>embeddings_file = Present [], index_file = Present example_index,
                              metadata_file = Unreadable\<rparr> empty_engine)) \<noteq> index empty_engine
   \<and> chunks_data (snd (load_index \<lparr>embeddings_file = Present [], index_file = Present example_index,
                                    metadata_file = Unreadable\<rparr> empty_engine))
       = chunks_data empty_engine"
  by (simp add: load_index_def exists_file_def read_file_def Let_def empty_engine_def)

section \<open>Properties of chunk packing\<close>

lemma length_join_snoc:
  "length (join_sp (ws @ [w])) = (if ws = [] then length w else length (join_sp ws) + 1 + length w)"
  by (induction ws rule: join_sp.induct) auto

lemma pack_bound:
  assumes "\<forall>c\<in>set chunks. int (length c) \<le> S \<or> c \<in> W"
      and "set cur \<subseteq> W" and "set ws \<subseteq> W"
      and "int (length (join_sp cur)) \<le> sz"
      and "cur = [] \<or> (\<exists>w. cur = [w]) \<or> int (length (join_sp cur)) \<le> S"
  shows "\<forall>c\<in>set (pack S ws chunks cur sz). int (length c) \<le> S \<or> c \<in> W"
  using assms
proof (induction ws arbitrary: chunks cur sz)
  case Nil
  then show ?case by auto
next
  case (Cons w ws)
  have closed: "int (length (join_sp cur)) \<le> S \<or> join_sp cur \<in> W" if "cur \<noteq> []"
    using Cons.prems(2,5) that by auto
  show ?case
  proof (cases "sz + (int (length w) + 1) > S \<and> cur \<noteq> []")
    case True
    then have eq: "pack S (w # ws) chunks cur sz
                     = pack S ws (chunks @ [join_sp cur]) [w] (int (length w))"
      by simp
    have "\<forall>c\<in>set (pack S ws (chunks @ [join_sp cur]) [w] (int (length w))).
            int (length c) \<le> S \<or> c \<in> W"
    proof (rule Cons.IH)
      show "\<forall>c\<in>set (chunks @ [join_sp cur]). int (length c) \<le> S \<or> c \<in> W"
        using Cons.prems(1) closed True by auto
    qed (use Cons.prems in auto)
    with eq show ?thesis by simp
  next
    case False
    then have eq: "pack S (w # ws) chunks cur sz
                     = pack S ws chunks (cur @ [w]) (sz + (int (length w) + 1))"
      by (auto simp: Let_def)
    have "\<forall>c\<in>set (pack S ws chunks (cur @ [w]) (sz + (int (length w) + 1))).
            int (length c) \<le> S \<or> c \<in> W"
    proof (rule Cons.IH)
      show "int (length (join_sp (cur @ [w]))) \<le> sz + (int (length w) + 1)"
        using Cons.prems(4) by (simp add: length_join_snoc)
      show "cur @ [w] = [] \<or> (\<exists>w'. cur @ [w] = [w']) \<or> int (length (join_sp (cur @ [w]))) \<le> S"
      proof (cases "cur = []")
        case True
        then show ?thesis by simp
      next
        case ne: False
        with False have "sz + (int (length w) + 1) \<le> S" by simp
        with Cons.prems(4) ne show ?thesis by (simp add: length_join_snoc)
      qed
    qed (use Cons.prems in auto)
    with eq show ?thesis by simp
  qed
qed

text \<open>
  Claim C4. For every text and every \<open>max_size\<close> \<open>S\<close>, each chunk of \<open>clean_and_chunk\<close>
  has at most \<open>S\<close> characters, or it is one single token whose own length exceeds \<open>S\<close>.
\<close>

theorem chunk_length_bound:
  "\<forall>c\<in>set (clean_and_chunk text S).
     int (length c) \<le> S \<or> (c \<in> set (tokens text) \<and> int (length c) > S)"
proof -
  have "\<forall>c\<in>set (pack S (tokens text) [] [] 0). int (length c) \<le> S \<or> c \<in> set (tokens text)"
    by (rule pack_bound) auto
  then show ?thesis unfolding clean_and_chunk_def by force
qed

lemma chunk_example: "clean_and_chunk ''ab <i>cdefgh</i>  i'' 3 = [''ab'', ''cdefgh'', ''i'']"
  by code_simp
lemma tokens_example: "tokens ''ab <i>cdefgh</i>  i''  = [''ab'', ''cdefgh'', ''i'']"
  by code_simp

theorem chunk_length_bound_witness:
  "''cdefgh'' \<in> set (clean_and_chunk ''ab <i>cdefgh</i>  i'' 3)
   \<and> ''cdefgh'' \<in> set (tokens ''ab <i>cdefgh</i>  i'') \<and> int (length ''cdefgh'') > 3
   \<and> ''ab'' \<in> set (clean_and_chunk ''ab <i>cdefgh</i>  i'' 3) \<and> int (length ''ab'') \<le> 3"
  using chunk_length_bound [of "''ab <i>cdefgh</i>  i''" 3]
  by (simp add: chunk_example tokens_example)

section \<open>The text of 1001 tokens\<close>

lemma is_space_blank [simp]: "is_space (CHR '' '')"
  by (simp add: is_space_def)

lemma strip_tags_id: "CHR ''<'' \<notin> set s \<Longrightarrow> strip_tags s = s"
  by (induction s) auto

lemma join_sp_Cons: "join_sp (w # ws) = (if ws = [] then w else w @ CHR '' '' # join_sp ws)"
  by (cases ws) auto

lemma join_sp_hd: "plain w \<Longrightarrow> \<exists>c r. join_sp (w # ws) = c # r \<and> \<not> is_space c"
  by (cases w) (auto simp: plain_def join_sp_Cons)

lemma dropWhile_join: "plain w \<Longrightarrow> dropWhile is_space (join_sp (w # ws)) = join_sp (w # ws)"
  using join_sp_hd [of w ws] by auto

lemma collapse_ws_plain:
  "\<forall>c\<in>set w. \<not> is_space c \<Longrightarrow> collapse_ws (w @ r) = w @ collapse_ws r"
  by (induction w) auto

lemma collapse_join: "\<forall>w\<in>set ws. plain w \<Longrightarrow> collapse_ws (join_sp ws) = join_sp ws"
proof (induction ws rule: join_sp.induct)
  case 1
  then show ?case by simp
next
  case (2 w)
  then show ?case using collapse_ws_plain [of w "[]"] by (simp add: plain_def)
next
  case (3 w v ws)
  then have "collapse_ws (join_sp (v # ws)) = join_sp (v # ws)" by simp
  moreover have "dropWhile is_space (join_sp (v # ws)) = join_sp (v # ws)"
    using 3 by (simp add: dropWhile_join)
  ultimately have "collapse_ws (CHR '' '' # join_sp (v # ws)) = CHR '' '' # join_sp (v # ws)"
    by simp
  moreover have "\<forall>c\<in>set w. \<not> is_space c" using 3 by (simp add: plain_def)
  ultimately show ?case using collapse_ws_plain [of w "CHR '' '' # join_sp (v # ws)"] by simp
qed

lemma join_sp_last:
  "ws \<noteq> [] \<Longrightarrow> \<forall>w\<in>set ws. plain w \<Longrightarrow> join_sp ws \<noteq> [] \<and> \<not> is_space (last (join_sp ws))"
  by (induction ws rule: join_sp.induct) (auto simp: plain_def)

lemma strip_join: "\<forall>w\<in>set ws. plain w \<Longrightarrow> strip (join_sp ws) = join_sp ws"
proof (cases ws)
  case Nil
  then show ?thesis by (simp add: strip_def)
next
  case (Cons w ws')
  assume p: "\<forall>w\<in>set ws. plain w"
  with Cons have d: "dropWhile is_space (join_sp ws) = join_sp ws" by (simp add: dropWhile_join)
  from p Cons have l: "join_sp ws \<noteq> [] \<and> \<not> is_space (last (join_sp ws))"
    using join_sp_last [of ws] by simp
  then have "hd (rev (join_sp ws)) = last (join_sp ws)" by (simp add: hd_rev)
  with l have "dropWhile is_space (rev (join_sp ws)) = rev (join_sp ws)"
    by (simp add: dropWhile_eq_self_iff)
  with d show ?thesis by (simp add: strip_def)
qed

lemma split_ws_Nil: "split_ws [] = []"
  by (simp add: split_ws.simps)

lemma split_ws_blank: "split_ws (CHR '' '' # s) = split_ws s"
  by (subst split_ws.simps, subst (2) split_ws.simps) simp

lemma split_ws_word:
  assumes "plain w"
  shows "split_ws (w @ CHR '' '' # r) = w # split_ws r" and "split_ws w = [w]"
proof -
  from assms obtain c cs where w: "w = c # cs" and c: "\<not> is_space c"
    by (cases w) (auto simp: plain_def)
  from assms have all: "\<forall>x\<in>set w. \<not> is_space x" by (simp add: plain_def)
  have t: "takeWhile (\<lambda>c. \<not> is_space c) (w @ CHR '' '' # r) = w"
    using all by (simp add: takeWhile_append2)
  have d: "dropWhile (\<lambda>c. \<not> is_space c) (w @ CHR '' '' # r) = CHR '' '' # r"
    using all by (simp add: dropWhile_append2)
  have dw: "dropWhile is_space (w @ CHR '' '' # r) = w @ CHR '' '' # r" using w c by simp
  show "split_ws (w @ CHR '' '' # r) = w # split_ws r"
    by (subst split_ws.simps) (simp only: Let_def dw t d split_ws_blank, simp)
  have dw': "dropWhile is_space w = w" using w c by simp
  have t': "takeWhile (\<lambda>c. \<not> is_space c) w = w" using all by simp
  have d': "dropWhile (\<lambda>c. \<not> is_space c) w = []" using all by simp
  have ne: "w \<noteq> []" using w by simp
  show "split_ws w = [w]"
    by (subst split_ws.simps) (simp only: Let_def dw' t' d' split_ws_Nil ne, simp)
qed

lemma split_join: "\<forall>w\<in>set ws. plain w \<Longrightarrow> split_ws (join_sp ws) = ws"
  by (induction ws rule: join_sp.induct) (simp_all add: split_ws_Nil split_ws_word)

lemma set_join_sp: "set (join_sp ws) \<subseteq> insert (CHR '' '') (\<Union>w\<in>set ws. set w)"
  by (induction ws rule: join_sp.induct) auto

lemma tokens_join:
  assumes "\<forall>w\<in>set ws. plain w \<and> CHR ''<'' \<notin> set w"
  shows "tokens (join_sp ws) = ws"
proof -
  have "CHR ''<'' \<notin> set (join_sp ws)" using assms set_join_sp [of ws] by auto
  then have "strip_tags (join_sp ws) = join_sp ws" by (rule strip_tags_id)
  with assms show ?thesis by (simp add: tokens_def collapse_join strip_join split_join)
qed

lemma pack_fill:
  "\<forall>w\<in>set xs. length w = 1 \<Longrightarrow> sz + 2 * int (length xs) \<le> S \<Longrightarrow>
   pack S (xs @ ys) chunks cur sz = pack S ys chunks (cur @ xs) (sz + 2 * int (length xs))"
proof (induction xs arbitrary: cur sz)
  case Nil
  then show ?case by simp
next
  case (Cons x xs)
  from Cons.prems have x: "int (length x) + 1 = 2" by simp
  from Cons.prems have nofl: "\<not> (sz + 2 > S \<and> cur \<noteq> [])" by simp
  have "pack S ((x # xs) @ ys) chunks cur sz = pack S (xs @ ys) chunks (cur @ [x]) (sz + 2)"
    using nofl x by (auto simp: Let_def)
  also have "\<dots> = pack S ys chunks ((cur @ [x]) @ xs) (sz + 2 + 2 * int (length xs))"
    using Cons.prems by (intro Cons.IH) auto
  finally show ?case by (simp add: algebra_simps)
qed

lemma pack_flush:
  "cur \<noteq> [] \<Longrightarrow> sz + (int (length w) + 1) > S \<Longrightarrow>
   pack S (w # ws) chunks cur sz = pack S ws (chunks @ [join_sp cur]) [w] (int (length w))"
  by simp

lemma pack_1001:
  assumes len: "length ws = 1001" and one: "\<forall>w\<in>set ws. length w = 1"
  shows "pack 1000 ws [] [] 0
           = [join_sp (take 500 ws), join_sp (take 500 (drop 500 ws)), ws ! 1000]"
proof -
  define a where "a = take 500 ws"
  define b where "b = take 499 (drop 501 ws)"
  define w1 where "w1 = ws ! 500"
  define w2 where "w2 = ws ! 1000"
  have la: "length a = 500" and lb: "length b = 499" using len by (simp_all add: a_def b_def)
  have d500: "drop 500 ws = w1 # drop 501 ws"
    using len Cons_nth_drop_Suc [of 500 ws] by (simp add: w1_def)
  have d1000: "drop 1000 ws = [w2]"
    using len Cons_nth_drop_Suc [of 1000 ws] by (simp add: w2_def)
  have "drop 501 ws = take 499 (drop 501 ws) @ drop 499 (drop 501 ws)"
    by (rule append_take_drop_id [symmetric])
  also have "drop 499 (drop 501 ws) = [w2]" using d1000 by simp
  finally have d501: "drop 501 ws = b @ [w2]" by (simp add: b_def)
  have "ws = take 500 ws @ drop 500 ws" by (rule append_take_drop_id [symmetric])
  then have ws: "ws = a @ w1 # b @ [w2]" by (simp add: a_def d500 d501)
  have t2: "take 500 (drop 500 ws) = w1 # b"
    using d500 d501 lb by simp
  have inws: "set a \<subseteq> set ws" "set b \<subseteq> set ws" "w1 \<in> set ws" "w2 \<in> set ws"
    using ws by (metis Un_iff set_append subsetI, metis Un_iff list.set_intros(2) set_append subsetI,
                 metis in_set_conv_decomp, metis append_Cons append_assoc in_set_conv_decomp)
  have ones: "\<forall>w\<in>set a. length w = 1" "\<forall>w\<in>set b. length w = 1" "length w1 = 1" "length w2 = 1"
    using one inws by auto
  have ane: "a \<noteq> []" using la by auto
  have "pack 1000 (a @ w1 # b @ [w2]) [] [] 0 = pack 1000 (w1 # b @ [w2]) [] ([] @ a) (0 + 2 * int (length a))"
    by (rule pack_fill) (use ones la in auto)
  also have "\<dots> = pack 1000 (w1 # b @ [w2]) [] a 1000" by (simp add: la)
  also have "\<dots> = pack 1000 (b @ [w2]) ([] @ [join_sp a]) [w1] (int (length w1))"
    by (rule pack_flush) (use ane ones in auto)
  also have "\<dots> = pack 1000 (b @ [w2]) [join_sp a] [w1] 1" by (simp add: ones)
  also have "\<dots> = pack 1000 [w2] [join_sp a] ([w1] @ b) (1 + 2 * int (length b))"
    by (rule pack_fill) (use ones lb in auto)
  also have "\<dots> = pack 1000 [w2] [join_sp a] (w1 # b) 999" by (simp add: lb)
  also have "\<dots> = pack 1000 [] ([join_sp a] @ [join_sp (w1 # b)]) [w2] (int (length w2))"
    by (rule pack_flush) (use ones in auto)
  also have "\<dots> = [join_sp a, join_sp (w1 # b), w2]" by simp
  finally have res: "pack 1000 (a @ w1 # b @ [w2]) [] [] 0 = [join_sp a, join_sp (w1 # b), w2]" .
  show ?thesis
    unfolding t2 a_def [symmetric] w2_def [symmetric] by (subst ws) (rule res)
qed

lemma chunks_1001:
  assumes "length cs = 1001" and "\<forall>c\<in>set cs. \<not> is_space c \<and> c \<noteq> CHR ''<''"
  shows "clean_and_chunk (join_sp (map (\<lambda>c. [c]) cs)) 1000
           = [join_sp (map (\<lambda>c. [c]) (take 500 cs)),
              join_sp (map (\<lambda>c. [c]) (take 500 (drop 500 cs))),
              [cs ! 1000]]"
proof -
  let ?ws = "map (\<lambda>c. [c]) cs"
  have "tokens (join_sp ?ws) = ?ws"
    by (rule tokens_join) (use assms in \<open>auto simp: plain_def\<close>)
  moreover have "pack 1000 ?ws [] [] 0
           = [join_sp (take 500 ?ws), join_sp (take 500 (drop 500 ?ws)), ?ws ! 1000]"
    by (rule pack_1001) (use assms in auto)
  moreover have "?ws ! 1000 = [cs ! 1000]" using assms(1) by simp
  ultimately show ?thesis by (simp add: clean_and_chunk_def take_map drop_map)
qed

text \<open>
  Claim C5, as amended. With \<open>max_size = 1000\<close>, a text of 1001 single-character tokens
  (no white space, no \<open><\<close>) separated by single spaces is cut into exactly 3 chunks: the
  first 500 tokens, the next 500 tokens, and the last token. A chunk of \<open>n\<close> such tokens
  has \<open>2 n - 1\<close> characters, so it holds at most 500 of them.
\<close>

theorem thousand_and_one_tokens:
  "length cs = 1001 \<Longrightarrow> \<forall>c\<in>set cs. \<not> is_space c \<and> c \<noteq> CHR ''<'' \<Longrightarrow>
   clean_and_chunk (join_sp (map (\<lambda>c. [c]) cs)) 1000
     = [join_sp (map (\<lambda>c. [c]) (take 500 cs)),
        join_sp (map (\<lambda>c. [c]) (take 500 (drop 500 cs))),
        [cs ! 1000]]"
  by (rule chunks_1001)

lemma not_space_a: "\<not> is_space (CHR ''a'')"
  by (simp add: is_space_def)

theorem thousand_and_one_tokens_witness:
  "length (replicate 1001 (CHR ''a'')) = 1001 \<and> \<not> is_space (CHR ''a'')
   \<and> clean_and_chunk (join_sp (map (\<lambda>c. [c]) (replicate 1001 (CHR ''a'')))) 1000
       = [join_sp (replicate 500 ''a''), join_sp (replicate 500 ''a''), ''a'']"
  using thousand_and_one_tokens [of "replicate 1001 (CHR ''a'')"] not_space_a
  by simp

text \<open>
  The text \<open>a a ... a\<close> of 1001 tokens is not cut into 2 chunks.
\<close>

theorem two_chunks_counterexample:
  "length (clean_and_chunk (join_sp (replicate 1001 ''a'')) 1000) \<noteq> 2"
  using chunks_1001 [of "replicate 1001 (CHR ''a'')"] not_space_a
  by simp

section \<open>Properties of the Query Interpreter\<close>

lemma apple_tickers: "extract_tickers ''Apple's risk factors in 2022'' = []"
  by code_simp

lemma apple_temporal:
  "extract_temporal_info ''Apple's risk factors in 2022''
     = \<lparr>years = [20], quarters = [], period_type = None\<rparr>"
  by code_simp

lemma apple_concepts:
  "map_financial_concepts (lower ''Apple's risk factors in 2022'') = [''risk_factors'']"
  by code_simp

text \<open>
  Claim C1 says that the question \<open>Apple's risk factors in 2022\<close> is parsed to the tickers
  \<open>[AAPL]\<close> and the years \<open>[2022]\<close>, with \<open>risk_factors\<close> among the concepts. The program
  finds no ticker, since \<open>AAPL\<close> does not occur in the question and \<open>COMPANIES\<close> maps a ticker
  to a number, not to a company name; it returns the year 20, the first group of the year
  pattern; the concept is found.
\<close>

theorem parse_apple_query:
  "tickers (parse_query ''Apple's risk factors in 2022'') = []
   \<and> years (temporal_info (parse_query ''Apple's risk factors in 2022'')) = [20]
   \<and> financial_concepts_q (parse_query ''Apple's risk factors in 2022'') = [''risk_factors'']"
  by (simp add: parse_query_def Let_def apple_tickers apple_temporal apple_concepts)

lemma plain_temporal:
  "extract_temporal_info ''in 2021'' = \<lparr>years = [20], quarters = [], period_type = None\<rparr>"
  by code_simp

lemma plain_concepts: "map_financial_concepts (lower ''in 2021'') = []"
  by code_simp

lemma strategy_cases:
  "search_type (determine_search_strategy fc ti) =
     (if fc \<in> {[''revenue_performance''], [''risk_factors'']} then ''semantic''
      else if years ti \<noteq> [] \<or> quarters ti \<noteq> [] then ''hybrid'' else ''semantic'')"
  "filters (determine_search_strategy fc ti) =
     (if years ti \<noteq> [] then [(''years'', years ti)] else [])"
proof -
  have key: "(length fc = 1 \<and> hd fc \<in> set [''revenue_performance'', ''risk_factors''])
          = (fc \<in> {[''revenue_performance''], [''risk_factors'']})"
    by (cases fc) auto
  show "search_type (determine_search_strategy fc ti) =
     (if fc \<in> {[''revenue_performance''], [''risk_factors'']} then ''semantic''
      else if years ti \<noteq> [] \<or> quarters ti \<noteq> [] then ''hybrid'' else ''semantic'')"
    unfolding determine_search_strategy_def Let_def key by auto
  show "filters (determine_search_strategy fc ti) =
     (if years ti \<noteq> [] then [(''years'', years ti)] else [])"
    unfolding determine_search_strategy_def Let_def by simp
qed

lemma parse_strategy:
  "search_strategy (parse_query q)
     = determine_search_strategy (financial_concepts_q (parse_query q)) (temporal_info (parse_query q))"
  by (simp add: parse_query_def Let_def)

text \<open>
  Claim C6, as amended. For every parsed query the search type is \<open>semantic\<close> when no year
  and no quarter was extracted, and also when the only matched concept is
  \<open>revenue_performance\<close> or \<open>risk_factors\<close>; it is \<open>hybrid\<close> when a year or a quarter was
  extracted and the matched concepts are not one of those two alone. Extracted years are
  recorded in the filters whatever the search type.
\<close>

theorem search_strategy_rule:
  "(years (temporal_info (parse_query q)) = [] \<and> quarters (temporal_info (parse_query q)) = []
      \<longrightarrow> search_type (search_strategy (parse_query q)) = ''semantic'')
   \<and> (financial_concepts_q (parse_query q) \<in> {[''revenue_performance''], [''risk_factors'']}
      \<longrightarrow> search_type (search_strategy (parse_query q)) = ''semantic'')
   \<and> ((years (temporal_info (parse_query q)) \<noteq> [] \<or> quarters (temporal_info (parse_query q)) \<noteq> [])
       \<and> financial_concepts_q (parse_query q) \<notin> {[''revenue_performance''], [''risk_factors'']}
      \<longrightarrow> search_type (search_strategy (parse_query q)) = ''hybrid'')
   \<and> filters (search_strategy (parse_query q))
       = (if years (temporal_info (parse_query q)) \<noteq> []
          then [(''years'', years (temporal_info (parse_query q)))] else [])"
  unfolding parse_strategy strategy_cases by simp

theorem search_strategy_rule_witness:
  "years (temporal_info (parse_query ''in 2021'')) = [20]
   \<and> financial_concepts_q (parse_query ''in 2021'') = []
   \<and> search_type (search_strategy (parse_query ''in 2021'')) = ''hybrid''
   \<and> filters (search_strategy (parse_query ''in 2021'')) = [(''years'', [20])]
   \<and> financial_concepts_q (parse_query ''Apple's risk factors in 2022'') = [''risk_factors'']
   \<and> search_type (search_strategy (parse_query ''Apple's risk factors in 2022'')) = ''semantic''"
proof -
  have a: "years (temporal_info (parse_query ''in 2021'')) = [20]"
    and b: "financial_concepts_q (parse_query ''in 2021'') = []"
    by (simp_all add: parse_query_def Let_def plain_temporal plain_concepts)
  have c: "financial_concepts_q (parse_query ''Apple's risk factors in 2022'') = [''risk_factors'']"
    by (simp add: parse_query_def Let_def apple_concepts)
  from search_strategy_rule [of "''in 2021''"] search_strategy_rule [of "''Apple's risk factors in 2022''"]
  show ?thesis unfolding a b c by simp
qed

text \<open>
  For \<open>Apple's risk factors in 2022\<close> a year is extracted and the search type is not
  \<open>hybrid\<close>.
\<close>

theorem hybrid_counterexample:
  "\<not> (years (temporal_info (parse_query ''Apple's risk factors in 2022'')) \<noteq> []
        \<or> quarters (temporal_info (parse_query ''Apple's risk factors in 2022'')) \<noteq> []
      \<longrightarrow> search_type (search_strategy (parse_query ''Apple's risk factors in 2022'')) = ''hybrid'')"
  by (simp add: parse_query_def Let_def apple_temporal apple_concepts determine_search_strategy_def)

section \<open>Properties of chunk identifiers\<close>

lemma year_of_names:
  "re_findall year_in_name ''0000320193-22-000108_primary-document.xml''
     = [[''0000''], [''3201''], [''0001'']]"
  "re_findall year_in_name ''0000320193-23-000106_primary-document.xml''
     = [[''0000''], [''3201''], [''0001'']]"
  by code_simp+

lemma suffix_of_names:
  "lower (suffix_of ''0000320193-22-000108_primary-document.xml'') = ''.xml''"
  "lower (suffix_of ''0000320193-23-000106_primary-document.xml'') = ''.xml''"
  by code_simp+

lemma sections_of_texts:
  "extract_sections (replicate 201 (CHR ''x'')) ''4'' = [(''General Content'', replicate 201 (CHR ''x''))]"
  "extract_sections (replicate 201 (CHR ''y'')) ''4'' = [(''General Content'', replicate 201 (CHR ''y''))]"
  by code_simp+

lemma chunks_of_texts:
  "clean_and_chunk (replicate 201 (CHR ''x'')) 1000 = [replicate 201 (CHR ''x'')]"
  "clean_and_chunk (replicate 201 (CHR ''y'')) 1000 = [replicate 201 (CHR ''y'')]"
  by code_simp+

lemma small_numbers: "int_of_digits ''0000'' = 0" "str_nat 0 = ''0''"
  by code_simp+

lemma ids_of_files:
  "map chunk_id (process_file get_text
      (''0000320193-22-000108_primary-document.xml'', Some (replicate 201 (CHR ''x''))) ''AAPL'' ''4'')
     = [''AAPL_4_0_0'']"
  "map chunk_id (process_file get_text
      (''0000320193-23-000106_primary-document.xml'', Some (replicate 201 (CHR ''y''))) ''AAPL'' ''4'')
     = [''AAPL_4_0_0'']"
  unfolding process_file_def
  by (simp_all add: suffix_of_names year_of_names sections_of_texts chunks_of_texts small_numbers
        str_year_def Let_def)

lemma names_end:
  "\<not> ends_with ''.html'' ''0000320193-22-000108_primary-document.xml''"
  "\<not> ends_with ''.html'' ''0000320193-23-000106_primary-document.xml''"
  "ends_with ''.xml'' ''0000320193-22-000108_primary-document.xml''"
  "ends_with ''.xml'' ''0000320193-23-000106_primary-document.xml''"
  by code_simp+

text \<open>
  Claim C7 says that two different chunks of a company never share a chunk identifier.
  The counter of \<open>process_file\<close> starts at 0 in every file, and the year is the first run
  of four digits of the file name, which is \<open>0000\<close> for a name that starts with an
  accession number: the first chunks of two filings of the same type get the same
  identifier.
\<close>

theorem chunk_ids_collide:
  "map chunk_id (process_company get_text form4_dir ''AAPL'') = [''AAPL_4_0_0'', ''AAPL_4_0_0'']"
  unfolding process_company_def form4_dir_def
  by (simp add: names_end ids_of_files)

section \<open>Properties of section extraction\<close>

lemma names_distinct: "distinct (map fst section_patterns)"
  by (simp add: section_patterns_def)

lemma pattern_of_mem: "(n, p) \<in> set section_patterns \<Longrightarrow> pattern_of n = p"
  using names_distinct by (simp add: pattern_of_def)

lemma search_from_range:
  "search_from rx prev i s = Some m \<Longrightarrow> i \<le> fst m \<and> fst m \<le> i + length s"
proof (induction s arbitrary: prev i)
  case Nil
  then show ?case by (auto split: option.splits)
next
  case (Cons c cs)
  show ?case
  proof (cases "match_alts rx prev (c # cs)")
    case None
    with Cons.prems have "search_from rx (Some c) (Suc i) cs = Some m" by simp
    from Cons.IH [OF this] show ?thesis by simp
  next
    case (Some x)
    with Cons.prems show ?thesis by auto
  qed
qed

lemma re_search_range: "re_search rx s = Some m \<Longrightarrow> fst m \<le> length s"
  using search_from_range [of rx None 0 s m] by (simp add: re_search_def)

lemma section_end_le: "section_end doc start a ps e \<le> e"
proof (induction ps arbitrary: e)
  case Nil
  then show ?case by simp
next
  case (Cons q ps)
  obtain n p where q: "q = (n, p)" by (cases q)
  have "section_end doc start a (q # ps) e = section_end doc start a ps
       (if n \<noteq> a
        then (case re_search p (drop start doc) of
                Some m \<Rightarrow> (let potential_end = start + fst m
                           in if start < potential_end \<and> potential_end < e
                              then potential_end else e)
              | None \<Rightarrow> e)
        else e)" (is "_ = section_end doc start a ps ?e'")
    by (simp add: q)
  moreover have "?e' \<le> e" by (auto simp: Let_def split: option.splits)
  ultimately show ?case using Cons.IH [of ?e'] by simp
qed

lemma section_end_upper:
  "(b, pb) \<in> set ps \<Longrightarrow> b \<noteq> a \<Longrightarrow> re_search pb (drop start doc) = Some m \<Longrightarrow>
   0 < fst m \<Longrightarrow> start + fst m \<le> e \<Longrightarrow>
   section_end doc start a ps e \<le> start + fst m"
proof (induction ps arbitrary: e)
  case Nil
  then show ?case by simp
next
  case (Cons q ps)
  obtain n p where q: "q = (n, p)" by (cases q)
  let ?e' = "(if n \<noteq> a
        then (case re_search p (drop start doc) of
                Some m \<Rightarrow> (let potential_end = start + fst m
                           in if start < potential_end \<and> potential_end < e
                              then potential_end else e)
              | None \<Rightarrow> e)
        else e)"
  have step: "section_end doc start a (q # ps) e = section_end doc start a ps ?e'"
    by (simp add: q)
  show ?case
  proof (cases "(b, pb) = q")
    case True
    with Cons.prems q have "?e' \<le> start + fst m" by (auto simp: Let_def)
    with section_end_le [of doc start a ps ?e'] step show ?thesis by simp
  next
    case False
    with Cons.prems have mem: "(b, pb) \<in> set ps" by simp
    show ?thesis
    proof (cases "start + fst m \<le> ?e'")
      case True
      from Cons.IH [OF mem Cons.prems(2,3,4) True] step show ?thesis by simp
    next
      case False
      with section_end_le [of doc start a ps ?e'] step show ?thesis by simp
    qed
  qed
qed

lemma section_end_lower:
  "X \<le> e \<Longrightarrow>
   \<forall>(n, p)\<in>set ps. n \<noteq> a \<longrightarrow>
      (case re_search p (drop start doc) of None \<Rightarrow> True
       | Some m \<Rightarrow> fst m = 0 \<or> X \<le> start + fst m) \<Longrightarrow>
   X \<le> section_end doc start a ps e"
proof (induction ps arbitrary: e)
  case Nil
  then show ?case by simp
next
  case (Cons q ps)
  obtain n p where q: "q = (n, p)" by (cases q)
  let ?e' = "(if n \<noteq> a
        then (case re_search p (drop start doc) of
                Some m \<Rightarrow> (let potential_end = start + fst m
                           in if start < potential_end \<and> potential_end < e
                              then potential_end else e)
              | None \<Rightarrow> e)
        else e)"
  have step: "section_end doc start a (q # ps) e = section_end doc start a ps ?e'"
    by (simp add: q)
  have "X \<le> ?e'" using Cons.prems q by (auto simp: Let_def split: option.splits)
  moreover have "\<forall>(n, p)\<in>set ps. n \<noteq> a \<longrightarrow>
      (case re_search p (drop start doc) of None \<Rightarrow> True
       | Some m \<Rightarrow> fst m = 0 \<or> X \<le> start + fst m)"
    using Cons.prems(2) by simp
  ultimately have "X \<le> section_end doc start a ps ?e'" by (rule Cons.IH)
  with step show ?case by simp
qed

lemma sections_loop_keys: "fst ` set (sections_loop doc ps) \<subseteq> fst ` set ps"
proof (induction ps)
  case Nil
  then show ?case by simp
next
  case (Cons q ps)
  obtain n p where q: "q = (n, p)" by (cases q)
  from Cons show ?case unfolding q
    by (auto simp: Let_def split: option.splits if_splits)
qed

lemma sections_loop_lookup:
  assumes "distinct (map fst ps)" and "(a, pa) \<in> set ps"
      and "re_search pa doc = Some m"
  shows "map_of (sections_loop doc ps) a
           = (if length (strip (slice doc (snd m)
                   (section_end doc (snd m) a section_patterns (length doc)))) > 200
              then Some (strip (slice doc (snd m)
                   (section_end doc (snd m) a section_patterns (length doc))))
              else None)"
  using assms(1,2)
proof (induction ps)
  case Nil
  then show ?case by simp
next
  case (Cons q ps)
  obtain n p where q: "q = (n, p)" by (cases q)
  show ?case
  proof (cases "n = a")
    case True
    with Cons.prems q have p: "p = pa" and "a \<notin> fst ` set ps" by (auto simp: image_iff)
    with sections_loop_keys [of doc ps] have "a \<notin> fst ` set (sections_loop doc ps)" by blast
    then have none: "map_of (sections_loop doc ps) a = None" by (simp add: map_of_eq_None_iff)
    from True q p assms(3) none show ?thesis by (simp add: Let_def)
  next
    case False
    with Cons.prems q have "map_of (sections_loop doc ps) a
           = (if length (strip (slice doc (snd m)
                   (section_end doc (snd m) a section_patterns (length doc)))) > 200
              then Some (strip (slice doc (snd m)
                   (section_end doc (snd m) a section_patterns (length doc))))
              else None)"
      by (intro Cons.IH) auto
    with False q show ?thesis by (auto simp: Let_def split: option.splits)
  qed
qed

lemma section_names_eval:
  "section_names = [''Risk Factors'', ''Business'', ''MD&A'', ''Financial Statements'',
                    ''Compensation'', ''Executive Compensation'']"
  by (simp add: section_names_def section_patterns_def)

lemma section_boundary:
  assumes a: "a \<in> set section_names"
      and ma: "re_search (pattern_of a) doc = Some (sa, ea)"
      and b: "b \<in> set section_names" "b \<noteq> a"
      and mb: "re_search (pattern_of b) (drop ea doc) = Some (d, d')" "0 < d"
      and others: "\<forall>n\<in>set section_names. n \<noteq> a \<longrightarrow>
             (case re_search (pattern_of n) (drop ea doc) of None \<Rightarrow> True
              | Some m \<Rightarrow> fst m = 0 \<or> d \<le> fst m)"
  shows "map_of (extract_sections doc ft) a
           = (if length (strip (slice doc ea (ea + d))) > 200
              then Some (strip (slice doc ea (ea + d))) else None)"
proof -
  from a obtain pa where pa: "(a, pa) \<in> set section_patterns"
    by (auto simp: section_names_def)
  from b obtain pb where pb: "(b, pb) \<in> set section_patterns"
    by (auto simp: section_names_def)
  have pa': "pattern_of a = pa" and pb': "pattern_of b = pb"
    using pa pb by (simp_all add: pattern_of_mem)
  have "d \<le> length (drop ea doc)" using re_search_range [OF mb(1)] by simp
  with mb(2) have bound: "ea + d \<le> length doc" by simp
  have up: "section_end doc ea a section_patterns (length doc) \<le> ea + d"
    using section_end_upper [OF pb b(2), of ea doc "(d, d')" "length doc"] mb bound
    by (simp add: pb')
  have "\<forall>(n, p)\<in>set section_patterns. n \<noteq> a \<longrightarrow>
      (case re_search p (drop ea doc) of None \<Rightarrow> True
       | Some m \<Rightarrow> fst m = 0 \<or> ea + d \<le> ea + fst m)"
  proof (clarify)
    fix n p assume np: "(n, p) \<in> set section_patterns" and "n \<noteq> a"
    then have "case re_search (pattern_of n) (drop ea doc) of None \<Rightarrow> True
              | Some m \<Rightarrow> fst m = 0 \<or> d \<le> fst m"
      using others by (force simp: section_names_def)
    then show "case re_search p (drop ea doc) of None \<Rightarrow> True
       | Some m \<Rightarrow> fst m = 0 \<or> ea + d \<le> ea + fst m"
      by (auto simp: pattern_of_mem [OF np] split: option.splits)
  qed
  with bound have "ea + d \<le> section_end doc ea a section_patterns (length doc)"
    by (rule section_end_lower)
  with up have e: "section_end doc ea a section_patterns (length doc) = ea + d" by simp
  have look: "map_of (sections_loop doc section_patterns) a
           = (if length (strip (slice doc ea (ea + d))) > 200
              then Some (strip (slice doc ea (ea + d))) else None)"
    using sections_loop_lookup [OF names_distinct pa, of doc "(sa, ea)"] ma
    by (simp add: pa' e)
  have general: "a \<noteq> ''General Content''" using a by (auto simp: section_names_eval)
  show ?thesis
  proof (cases "sections_loop doc section_patterns = []")
    case True
    with look have "\<not> length (strip (slice doc ea (ea + d))) > 200" by (auto split: if_splits)
    with True general show ?thesis by (simp add: extract_sections_def Let_def)
  next
    case False
    with look show ?thesis by (simp add: extract_sections_def Let_def)
  qed
qed

lemma marker_doc_matches:
  "re_search (pattern_of ''Business'') marker_doc = Some (0, 16)"
  "re_search (pattern_of ''Risk Factors'') (drop 16 marker_doc) = Some (201, 222)"
  by code_simp+

lemma marker_doc_others:
  "\<forall>n\<in>set section_names. n \<noteq> ''Business'' \<longrightarrow>
     (case re_search (pattern_of n) (drop 16 marker_doc) of None \<Rightarrow> True
      | Some m \<Rightarrow> fst m = 0 \<or> 201 \<le> fst m)"
  by code_simp

lemma marker_doc_text: "strip (slice marker_doc 16 (16 + 201)) = replicate 201 (CHR ''x'')"
  by code_simp

lemma short_doc_matches:
  "re_search (pattern_of ''Business'') short_doc = Some (0, 16)"
  "re_search (pattern_of ''Risk Factors'') (drop 16 short_doc) = Some (12, 33)"
  by code_simp+

lemma short_doc_others:
  "\<forall>n\<in>set section_names. n \<noteq> ''Business'' \<longrightarrow>
     (case re_search (pattern_of n) (drop 16 short_doc) of None \<Rightarrow> True
      | Some m \<Rightarrow> fst m = 0 \<or> 12 \<le> fst m)"
  by code_simp

lemma short_doc_text: "strip (slice short_doc 16 (16 + 12)) = ''short text''"
  by code_simp

text \<open>
  Claim C8, as amended. Let marker \<open>a\<close> match in the document, its first match ending at
  \<open>ea\<close>; let the first match of another marker \<open>b\<close> in the text after \<open>ea\<close> start \<open>d > 0\<close>
  characters after \<open>ea\<close>, and let no other marker have its first match in that text at an
  offset strictly between 0 and \<open>d\<close>. Then the section recorded for \<open>a\<close> is the text from
  \<open>ea\<close> to the start of \<open>b\<close>'s marker with its leading and trailing white space stripped
  when that text is longer than 200 characters, and no section is recorded for \<open>a\<close> when
  it is not.
\<close>

theorem section_boundary_rule:
  "a \<in> set section_names \<Longrightarrow> re_search (pattern_of a) doc = Some (sa, ea) \<Longrightarrow>
   b \<in> set section_names \<Longrightarrow> b \<noteq> a \<Longrightarrow>
   re_search (pattern_of b) (drop ea doc) = Some (d, d') \<Longrightarrow> 0 < d \<Longrightarrow>
   \<forall>n\<in>set section_names. n \<noteq> a \<longrightarrow>
      (case re_search (pattern_of n) (drop ea doc) of None \<Rightarrow> True
       | Some m \<Rightarrow> fst m = 0 \<or> d \<le> fst m) \<Longrightarrow>
   map_of (extract_sections doc ft) a
     = (if length (strip (slice doc ea (ea + d))) > 200
        then Some (strip (slice doc ea (ea + d))) else None)"
  by (rule section_boundary)

theorem section_boundary_rule_witness:
  "''Business'' \<in> set section_names
   \<and> re_search (pattern_of ''Business'') marker_doc = Some (0, 16)
   \<and> ''Risk Factors'' \<in> set section_names
   \<and> re_search (pattern_of ''Risk Factors'') (drop 16 marker_doc) = Some (201, 222)
   \<and> map_of (extract_sections marker_doc ''10-K'') ''Business'' = Some (replicate 201 (CHR ''x''))
   \<and> re_search (pattern_of ''Business'') short_doc = Some (0, 16)
   \<and> re_search (pattern_of ''Risk Factors'') (drop 16 short_doc) = Some (12, 33)
   \<and> map_of (extract_sections short_doc ''10-K'') ''Business'' = None"
proof -
  have a: "''Business'' \<in> set section_names" and b: "''Risk Factors'' \<in> set section_names"
    by (simp_all add: section_names_eval)
  have ne: "''Risk Factors'' \<noteq> ''Business''" by simp
  have pos: "(0::nat) < 201" "(0::nat) < 12" by simp_all
  from section_boundary_rule [OF a marker_doc_matches(1) b ne marker_doc_matches(2) pos(1)
         marker_doc_others, of "''10-K''"]
  have res: "map_of (extract_sections marker_doc ''10-K'') ''Business''
               = Some (replicate 201 (CHR ''x''))"
    unfolding marker_doc_text by simp
  from section_boundary_rule [OF a short_doc_matches(1) b ne short_doc_matches(2) pos(2)
         short_doc_others, of "''10-K''"]
  have res': "map_of (extract_sections short_doc ''10-K'') ''Business'' = None"
    unfolding short_doc_text by simp
  from a b marker_doc_matches short_doc_matches res res' show ?thesis by blast
qed

lemma adjacent_doc_matches:
  "re_search (pattern_of ''Business'') adjacent_doc = Some (0, 16)"
  "re_search (pattern_of ''Financial Statements'') adjacent_doc = Some (16, 44)"
  by code_simp+

lemma adjacent_doc_markers:
  "map (\<lambda>n. re_search (pattern_of n) adjacent_doc) section_names
     = [None, Some (0, 16), None, Some (16, 44), None, None]"
  by code_simp

lemma adjacent_doc_sections:
  "extract_sections adjacent_doc ''10-K''
     = [(''Business'', ''Item 8. Financial Statements'' @ replicate 201 (CHR ''x'')),
        (''Financial Statements'', replicate 201 (CHR ''x''))]"
  by code_simp

lemma adjacent_doc_between: "slice adjacent_doc 16 16 = []"
  by (simp add: slice_def)

text \<open>
  When the marker of Financial Statements starts right where the marker of Business ends,
  it does not end the Business section: that section runs on to the end of the document and
  holds the other marker and its text, not the empty text between the two markers.
\<close>

theorem adjacent_markers_counterexample:
  "re_search (pattern_of ''Business'') adjacent_doc = Some (0, 16)
   \<and> re_search (pattern_of ''Financial Statements'') adjacent_doc = Some (16, 44)
   \<and> map (\<lambda>n. re_search (pattern_of n) adjacent_doc) section_names
       = [None, Some (0, 16), None, Some (16, 44), None, None]
   \<and> map_of (extract_sections adjacent_doc ''10-K'') ''Business''
       = Some (''Item 8. Financial Statements'' @ replicate 201 (CHR ''x''))
   \<and> map_of (extract_sections adjacent_doc ''10-K'') ''Business''
       \<noteq> Some (slice adjacent_doc 16 16)"
  by (simp add: adjacent_doc_matches adjacent_doc_markers adjacent_doc_sections adjacent_doc_between)

end
